theory Spec2Isabelle
  imports Complex_Main "HOL-Library.Multiset"
begin

section \<open>Values, errors and the graph store\<close>

text \<open>
  The service in \<^verbatim>\<open>backend/main.py\<close> keeps no state of its own: every operation is one
  transaction against a graph store, written as a Cypher statement. The embedding has
  three layers:
  \<^item> the store: Prompt nodes, Tag nodes and HAS_TAG edges, with the meaning of the four
    Cypher statements that occur in the source;
  \<^item> the Python transaction functions and endpoint functions, written over an arbitrary
    backend (the object \<^verbatim>\<open>tx\<close> of the source), with every exception as a value;
  \<^item> the routing table built by the decorators, and the dispatch of a request.
\<close>

datatype val =
    Null
  | Str string
  | Float real
  | StrList "string list"
  | Node "(string \<times> val) list"

datatype error =
    Neo4jError string
  | KeyError string
  | TypeError
  | AttributeError
  | RequestValidationError
  | HTTPException nat string

type_synonym row = "(string \<times> val) list"

record prompt_node =
  p_ident :: nat
  p_id :: string
  p_text :: string
  p_source :: "string option"

record tag_node =
  t_ident :: nat
  t_name :: string

record graph =
  prompt_nodes :: "prompt_node list"
  tag_nodes :: "tag_node list"
  has_tag :: "(nat \<times> nat) list"
  next_ident :: nat
  fulltext_index :: bool

definition empty_graph :: graph where
  "empty_graph = \<lparr>prompt_nodes = [], tag_nodes = [], has_tag = [], next_ident = 0,
     fulltext_index = False\<rparr>"

subsection \<open>The statements of the source\<close>

text \<open>
  The source runs exactly four statements. Each becomes a constructor that carries the
  statement's parameters: the CREATE/FOREACH/MERGE statement of \<^verbatim>\<open>_create_prompt\<close>, the
  MATCH/OPTIONAL MATCH statement of \<^verbatim>\<open>_get_prompt\<close>, and the index creation and the ranked
  query of \<^verbatim>\<open>_search_prompts\<close>.
\<close>

datatype statement =
    CreatePromptQuery string string "string option" "string list"
  | GetPromptQuery string
  | CreateIndexQuery
  | SearchQuery string

text \<open>\<^verbatim>\<open>CREATE (p:Prompt {id: $id, text: $text, source: $source})\<close>: one new node.\<close>

definition create_prompt_node :: "string \<Rightarrow> string \<Rightarrow> string option \<Rightarrow> graph \<Rightarrow> graph" where
  "create_prompt_node i t s g =
     g\<lparr>prompt_nodes := prompt_nodes g @
          [\<lparr>p_ident = next_ident g, p_id = i, p_text = t, p_source = s\<rparr>],
       next_ident := Suc (next_ident g)\<rparr>"

text \<open>\<^verbatim>\<open>MERGE (t:Tag {name: tag})\<close>: a node is created only when no Tag node has the name.\<close>

definition merge_tag_node :: "string \<Rightarrow> graph \<Rightarrow> graph" where
  "merge_tag_node n g =
     (if n \<in> set (map t_name (tag_nodes g)) then g
      else g\<lparr>tag_nodes := tag_nodes g @ [\<lparr>t_ident = next_ident g, t_name = n\<rparr>],
             next_ident := Suc (next_ident g)\<rparr>)"

text \<open>\<^verbatim>\<open>MERGE (p)-[:HAS_TAG]->(t)\<close>: an edge is created only when none links the pair.\<close>

definition merge_edge :: "nat \<Rightarrow> nat \<Rightarrow> graph \<Rightarrow> graph" where
  "merge_edge p t g =
     (if (p, t) \<in> set (has_tag g) then g else g\<lparr>has_tag := has_tag g @ [(p, t)]\<rparr>)"

text \<open>
  One round of the FOREACH: the first MERGE binds \<open>t\<close> to every Tag node of that name
  (to the new one when there was none), the second MERGE runs once for each binding.
\<close>

definition foreach_tag :: "nat \<Rightarrow> string \<Rightarrow> graph \<Rightarrow> graph" where
  "foreach_tag p n g =
     (let g1 = merge_tag_node n g
      in fold (\<lambda>t. merge_edge p (t_ident t)) (filter (\<lambda>t. t_name t = n) (tag_nodes g1)) g1)"

definition create_prompt_writes :: "string \<Rightarrow> string \<Rightarrow> string option \<Rightarrow> string list \<Rightarrow> graph \<Rightarrow> graph" where
  "create_prompt_writes i t s tags g =
     fold (foreach_tag (next_ident g)) tags (create_prompt_node i t s g)"

text \<open>
  \<^verbatim>\<open>MATCH (p:Prompt {id: $id}) OPTIONAL MATCH (p)-[:HAS_TAG]->(t:Tag)
  RETURN p, collect(t.name) AS tags\<close>: one row for each Prompt node with the id; the names
  of the Tag nodes at the end of its edges are collected (none gives the empty list). A
  null property is not stored, so a node made with a null source has no such property.
\<close>

definition collect_tag_names :: "nat \<Rightarrow> graph \<Rightarrow> string list" where
  "collect_tag_names p g =
     concat (map (\<lambda>e. if fst e = p
                      then map t_name (filter (\<lambda>t. t_ident t = snd e) (tag_nodes g))
                      else [])
                 (has_tag g))"

definition node_val :: "prompt_node \<Rightarrow> val" where
  "node_val p =
     Node ([(''id'', Str (p_id p)), (''text'', Str (p_text p))] @
           (case p_source p of None \<Rightarrow> [] | Some s \<Rightarrow> [(''source'', Str s)]))"

definition get_prompt_rows :: "string \<Rightarrow> graph \<Rightarrow> row list" where
  "get_prompt_rows i g =
     map (\<lambda>p. [(''p'', node_val p), (''tags'', StrList (collect_tag_names (p_ident p) g))])
         (filter (\<lambda>p. p_id p = i) (prompt_nodes g))"

text \<open>
  The full-text engine is outside the repository. It is a parameter: which query strings
  its parser accepts, and the relevance of a text for a query (\<open>None\<close>: no match).
  \<^verbatim>\<open>CALL db.index.fulltext.queryNodes('promptTextIndex', $q) YIELD node, score
  RETURN node.id AS id, node.text AS text, node.source AS source, score
  ORDER BY score DESC LIMIT 10\<close>
\<close>

record engine =
  accepts :: "string \<Rightarrow> bool"
  relevance :: "string \<Rightarrow> string \<Rightarrow> real option"

definition query_nodes :: "engine \<Rightarrow> string \<Rightarrow> graph \<Rightarrow> (prompt_node \<times> real) list" where
  "query_nodes eng q g =
     concat (map (\<lambda>p. case relevance eng q (p_text p) of None \<Rightarrow> [] | Some s \<Rightarrow> [(p, s)])
                 (prompt_nodes g))"

definition hit_row :: "prompt_node \<times> real \<Rightarrow> row" where
  "hit_row h =
     [(''id'', Str (p_id (fst h))), (''text'', Str (p_text (fst h))),
      (''source'', (case p_source (fst h) of None \<Rightarrow> Null | Some s \<Rightarrow> Str s)),
      (''score'', Float (snd h))]"

definition search_rows :: "engine \<Rightarrow> string \<Rightarrow> graph \<Rightarrow> row list" where
  "search_rows eng q g =
     map hit_row (take 10 (sort_key (\<lambda>h. - snd h) (query_nodes eng q g)))"

subsection \<open>The reference backend\<close>

text \<open>
  A backend runs a statement on the graph of the open transaction and says whether the
  commit goes through. The reference backend gives the statements the meaning above; a
  fault makes it fail part-way: \<open>FailAfter k\<close> raises inside a statement after \<open>k\<close> of its
  writes (for the create statement: the node, then one round of the FOREACH per tag),
  \<open>FailCommit\<close> refuses the commit.
\<close>

datatype fault = NoFault | FailAfter nat | FailCommit

record backend =
  run :: "statement \<Rightarrow> graph \<Rightarrow> (error + row list) \<times> graph"
  commit :: "graph \<Rightarrow> error option"

definition store_failure :: error where
  "store_failure = Neo4jError ''ServiceUnavailable''"

definition writes_done :: "fault \<Rightarrow> nat \<Rightarrow> nat option" where
  "writes_done flt n =
     (case flt of FailAfter k \<Rightarrow> (if k < n then Some k else None) | _ \<Rightarrow> None)"

fun neo4j_run :: "engine \<Rightarrow> fault \<Rightarrow> statement \<Rightarrow> graph \<Rightarrow> (error + row list) \<times> graph" where
  "neo4j_run eng flt (CreatePromptQuery i t s tags) g =
     (case writes_done flt (Suc (length tags)) of
        Some 0 \<Rightarrow> (Inl store_failure, g)
      | Some (Suc k) \<Rightarrow> (Inl store_failure, create_prompt_writes i t s (take k tags) g)
      | None \<Rightarrow> (Inr [[(''id'', Str i)]], create_prompt_writes i t s tags g))"
| "neo4j_run eng flt (GetPromptQuery i) g =
     (case writes_done flt 1 of
        Some k \<Rightarrow> (Inl store_failure, g)
      | None \<Rightarrow> (Inr (get_prompt_rows i g), g))"
| "neo4j_run eng flt CreateIndexQuery g =
     (case writes_done flt 1 of
        Some k \<Rightarrow> (Inl store_failure, g)
      | None \<Rightarrow> (Inr [], g\<lparr>fulltext_index := True\<rparr>))"
| "neo4j_run eng flt (SearchQuery q) g =
     (if \<not> fulltext_index g then (Inl (Neo4jError ''no such fulltext index''), g)
      else if \<not> accepts eng q then (Inl (Neo4jError ''cannot parse query''), g)
      else (case writes_done flt 1 of
              Some k \<Rightarrow> (Inl store_failure, g)
            | None \<Rightarrow> (Inr (search_rows eng q g), g)))"

definition neo4j :: "engine \<Rightarrow> fault \<Rightarrow> backend" where
  "neo4j eng flt =
     \<lparr>run = neo4j_run eng flt,
      commit = (\<lambda>g. case flt of FailCommit \<Rightarrow> Some store_failure | _ \<Rightarrow> None)\<rparr>"

section \<open>The Python layer\<close>

subsection \<open>Sessions and transactions\<close>

text \<open>
  The world is the committed graph and a trace of what was asked of the store. Inside a
  transaction the same record holds the transaction's working graph. A managed transaction
  (\<^verbatim>\<open>session.write_transaction\<close>, \<^verbatim>\<open>session.read_transaction\<close>) calls the transaction
  function, commits when it returns and rolls back when it raises or when the commit is
  refused; the exception goes on to the caller. The driver's repeated attempts after a
  transient failure are not modelled: a fault here is one that lasts.
\<close>

datatype event = SessionAcquired | Ran statement | Committed | RolledBack | SessionClosed

record world =
  store :: graph
  trace :: "event list"

definition tx_run :: "backend \<Rightarrow> statement \<Rightarrow> world \<Rightarrow> (error + row list) \<times> world" where
  "tx_run be s w =
     (case run be s (store w) of (r, g) \<Rightarrow> (r, \<lparr>store = g, trace = trace w @ [Ran s]\<rparr>))"

definition rolled_back :: "world \<Rightarrow> world \<Rightarrow> world" where
  "rolled_back w w1 = \<lparr>store = store w, trace = trace w1 @ [RolledBack]\<rparr>"

definition write_transaction ::
  "backend \<Rightarrow> (world \<Rightarrow> (error + 'a) \<times> world) \<Rightarrow> world \<Rightarrow> (error + 'a) \<times> world" where
  "write_transaction be f w =
     (case f w of
        (Inl e, w1) \<Rightarrow> (Inl e, rolled_back w w1)
      | (Inr v, w1) \<Rightarrow>
          (case commit be (store w1) of
             Some e \<Rightarrow> (Inl e, rolled_back w w1)
           | None \<Rightarrow> (Inr v, \<lparr>store = store w1, trace = trace w1 @ [Committed]\<rparr>)))"

definition read_transaction ::
  "backend \<Rightarrow> (world \<Rightarrow> (error + 'a) \<times> world) \<Rightarrow> world \<Rightarrow> (error + 'a) \<times> world" where
  "read_transaction be f w =
     (case f w of
        (Inl e, w1) \<Rightarrow> (Inl e, rolled_back w w1)
      | (Inr v, w1) \<Rightarrow>
          (case commit be (store w1) of
             Some e \<Rightarrow> (Inl e, rolled_back w w1)
           | None \<Rightarrow> (Inr v, \<lparr>store = store w1, trace = trace w1 @ [Committed]\<rparr>)))"

text \<open>\<^verbatim>\<open>with driver.session() as session:\<close> the session is closed on every way out.\<close>

definition with_session :: "(world \<Rightarrow> 'a \<times> world) \<Rightarrow> world \<Rightarrow> 'a \<times> world" where
  "with_session body w =
     (case body (w\<lparr>trace := trace w @ [SessionAcquired]\<rparr>) of
        (r, w1) \<Rightarrow> (r, w1\<lparr>trace := trace w1 @ [SessionClosed]\<rparr>))"

subsection \<open>Records, nodes and dictionaries\<close>

text \<open>
  \<^verbatim>\<open>result.single()\<close> is \<open>None\<close> on an empty result and the first record otherwise. A
  record is a tuple of its columns, so Python takes one with no column for false.
  \<^verbatim>\<open>record["k"]\<close> raises on a missing key; on a node, \<^verbatim>\<open>p["k"]\<close> and \<^verbatim>\<open>p.get("k")\<close>
  both give \<open>None\<close> for a property that the node does not have.
\<close>

definition single :: "row list \<Rightarrow> row option" where
  "single result = (case result of [] \<Rightarrow> None | r # _ \<Rightarrow> Some r)"

definition getitem :: "row \<Rightarrow> string \<Rightarrow> error + val" where
  "getitem r k = (case map_of r k of None \<Rightarrow> Inl (KeyError k) | Some v \<Rightarrow> Inr v)"

fun node_getitem :: "val \<Rightarrow> string \<Rightarrow> error + val" where
  "node_getitem (Node props) k = Inr (case map_of props k of None \<Rightarrow> Null | Some v \<Rightarrow> v)"
| "node_getitem _ k = Inl TypeError"

fun node_get :: "val \<Rightarrow> string \<Rightarrow> error + val" where
  "node_get (Node props) k = Inr (case map_of props k of None \<Rightarrow> Null | Some v \<Rightarrow> v)"
| "node_get _ k = Inl AttributeError"

definition bind_err :: "error + 'a \<Rightarrow> ('a \<Rightarrow> error + 'b) \<Rightarrow> error + 'b" where
  "bind_err m f = (case m of Inl e \<Rightarrow> Inl e | Inr v \<Rightarrow> f v)"

record prompt_dict =
  d_id :: val
  d_text :: val
  d_source :: val
  d_tags :: val

record search_dict =
  s_id :: val
  s_text :: val
  s_source :: val
  s_score :: val

subsection \<open>The transaction functions\<close>

text \<open>
  \<^verbatim>\<open>_create_prompt\<close>, \<^verbatim>\<open>_get_prompt\<close> and \<^verbatim>\<open>_search_prompts\<close> of the source (a
  name cannot start with an underscore here, so they carry the prefix \<open>tx\<close>).
\<close>

definition tx_create_prompt ::
  "backend \<Rightarrow> string \<Rightarrow> string \<Rightarrow> string option \<Rightarrow> string list \<Rightarrow> world \<Rightarrow> (error + val) \<times> world" where
  "tx_create_prompt be prompt_id txt source tags w =
     (case tx_run be (CreatePromptQuery prompt_id txt source tags) w of
        (Inl e, w1) \<Rightarrow> (Inl e, w1)
      | (Inr result, w1) \<Rightarrow>
          (case single result of
             None \<Rightarrow> (Inr Null, w1)
           | Some rec \<Rightarrow> (if rec = [] then (Inr Null, w1) else (getitem rec ''id'', w1))))"

definition prompt_of_record :: "row \<Rightarrow> error + prompt_dict" where
  "prompt_of_record rec =
     bind_err (getitem rec ''p'') (\<lambda>p.
     bind_err (node_getitem p ''id'') (\<lambda>i.
     bind_err (node_getitem p ''text'') (\<lambda>t.
     bind_err (node_get p ''source'') (\<lambda>s.
     bind_err (getitem rec ''tags'') (\<lambda>ts.
       Inr \<lparr>d_id = i, d_text = t, d_source = s, d_tags = ts\<rparr>)))))"

definition tx_get_prompt ::
  "backend \<Rightarrow> string \<Rightarrow> world \<Rightarrow> (error + prompt_dict option) \<times> world" where
  "tx_get_prompt be prompt_id w =
     (case tx_run be (GetPromptQuery prompt_id) w of
        (Inl e, w1) \<Rightarrow> (Inl e, w1)
      | (Inr result, w1) \<Rightarrow>
          (case single result of
             None \<Rightarrow> (Inr None, w1)
           | Some rec \<Rightarrow>
               (if rec = [] then (Inr None, w1)
                else (bind_err (prompt_of_record rec) (\<lambda>d. Inr (Some d)), w1))))"

definition search_of_record :: "row \<Rightarrow> error + search_dict" where
  "search_of_record rec =
     bind_err (getitem rec ''id'') (\<lambda>i.
     bind_err (getitem rec ''text'') (\<lambda>t.
     bind_err (getitem rec ''source'') (\<lambda>s.
     bind_err (getitem rec ''score'') (\<lambda>sc.
       Inr \<lparr>s_id = i, s_text = t, s_source = s, s_score = sc\<rparr>))))"

fun search_of_records :: "row list \<Rightarrow> error + search_dict list" where
  "search_of_records [] = Inr []"
| "search_of_records (rec # result) =
     bind_err (search_of_record rec) (\<lambda>d.
     bind_err (search_of_records result) (\<lambda>ds. Inr (d # ds)))"

definition tx_search_prompts ::
  "backend \<Rightarrow> string \<Rightarrow> world \<Rightarrow> (error + search_dict list) \<times> world" where
  "tx_search_prompts be query_string w =
     (case tx_run be CreateIndexQuery w of
        (Inl e, w1) \<Rightarrow> (Inl e, w1)
      | (Inr _, w1) \<Rightarrow>
          (case tx_run be (SearchQuery query_string) w1 of
             (Inl e, w2) \<Rightarrow> (Inl e, w2)
           | (Inr result, w2) \<Rightarrow> (search_of_records result, w2)))"

subsection \<open>The endpoint functions\<close>

text \<open>
  \<^verbatim>\<open>PromptCreate\<close> is the validated request model. The identifier drawn by
  \<^verbatim>\<open>uuid.uuid4()\<close> is an argument of \<open>create_prompt\<close>.
\<close>

record PromptCreate =
  pc_text :: string
  pc_source :: "string option"
  pc_tags :: "string list option"

datatype response =
    CreateResponse val
  | PromptResponse prompt_dict
  | SearchResponse "search_dict list"
  | DocsResponse
  | RedirectResponse string

text \<open>\<^verbatim>\<open>prompt.tags or []\<close>\<close>

definition tags_or_empty :: "string list option \<Rightarrow> string list" where
  "tags_or_empty tags = (case tags of None \<Rightarrow> [] | Some ts \<Rightarrow> (if ts = [] then [] else ts))"

definition create_prompt ::
  "backend \<Rightarrow> string \<Rightarrow> PromptCreate \<Rightarrow> world \<Rightarrow> (error + response) \<times> world" where
  "create_prompt be uuid4 prompt w =
     (let prompt_id = uuid4;
          tags = tags_or_empty (pc_tags prompt)
      in case with_session
                (write_transaction be
                   (tx_create_prompt be prompt_id (pc_text prompt) (pc_source prompt) tags)) w of
           (Inl e, w1) \<Rightarrow> (Inl e, w1)
         | (Inr created_id, w1) \<Rightarrow> (Inr (CreateResponse created_id), w1))"

definition get_prompt :: "backend \<Rightarrow> string \<Rightarrow> world \<Rightarrow> (error + response) \<times> world" where
  "get_prompt be prompt_id w =
     (case with_session (read_transaction be (tx_get_prompt be prompt_id)) w of
        (Inl e, w1) \<Rightarrow> (Inl e, w1)
      | (Inr None, w1) \<Rightarrow> (Inl (HTTPException 404 ''Prompt not found''), w1)
      | (Inr (Some prompt), w1) \<Rightarrow> (Inr (PromptResponse prompt), w1))"

definition search_prompts :: "backend \<Rightarrow> string \<Rightarrow> world \<Rightarrow> (error + response) \<times> world" where
  "search_prompts be q w =
     (case with_session (read_transaction be (tx_search_prompts be q)) w of
        (Inl e, w1) \<Rightarrow> (Inl e, w1)
      | (Inr results, w1) \<Rightarrow> (Inr (SearchResponse results), w1))"

section \<open>Requests, validation and routing\<close>

text \<open>
  A request carries its method, its path, its query parameters and its decoded JSON body.
  In the body, \<open>None\<close> is a field that is missing (or null): the model \<^verbatim>\<open>PromptCreate\<close>
  requires \<^verbatim>\<open>text: str\<close> and gives \<^verbatim>\<open>source\<close> and \<^verbatim>\<open>tags\<close> the default \<open>None\<close>; it puts
  no bound on the length of \<^verbatim>\<open>text\<close>. The parameter \<^verbatim>\<open>q: str = Query(...)\<close> is required,
  and equally unbounded.
\<close>

datatype http_method = GET | HEAD | POST | PUT | DELETE

record body =
  b_text :: "string option"
  b_source :: "string option"
  b_tags :: "string list option"

record request =
  r_method :: http_method
  r_path :: string
  r_query :: "(string \<times> string) list"
  r_body :: "body option"

definition validate_body :: "body option \<Rightarrow> error + PromptCreate" where
  "validate_body b =
     (case b of
        None \<Rightarrow> Inl RequestValidationError
      | Some b \<Rightarrow>
          (case b_text b of
             None \<Rightarrow> Inl RequestValidationError
           | Some t \<Rightarrow> Inr \<lparr>pc_text = t, pc_source = b_source b, pc_tags = b_tags b\<rparr>))"

text \<open>Of a query parameter given several times, the last value is the one used.\<close>

definition query_param :: "request \<Rightarrow> string \<Rightarrow> string option" where
  "query_param req k = map_of (rev (r_query req)) k"

subsection \<open>The routing table\<close>

text \<open>
  A path template is compiled to a regular expression anchored at both ends: the literal
  parts match themselves, a parameter \<^verbatim>\<open>{name}\<close> matches one or more characters other than
  the slash. Routes are kept in the order of registration; the application object
  registers its documentation routes when it is built, then each decorator adds one route.
\<close>

datatype seg = Lit string | Param string

fun match_path :: "seg list \<Rightarrow> string \<Rightarrow> (string \<times> string) list option" where
  "match_path [] s = (if s = [] then Some [] else None)"
| "match_path (Lit l # ps) s =
     (if take (length l) s = l then match_path ps (drop (length l) s) else None)"
| "match_path (Param n # ps) s =
     (let v = takeWhile (\<lambda>c. c \<noteq> CHR ''/'') s
      in if v = [] then None
         else map_option ((#) (n, v)) (match_path ps (dropWhile (\<lambda>c. c \<noteq> CHR ''/'') s)))"

datatype endpoint =
    OpenapiEndpoint
  | SwaggerEndpoint
  | SwaggerRedirectEndpoint
  | RedocEndpoint
  | CreatePromptEndpoint
  | GetPromptEndpoint
  | SearchPromptsEndpoint

record route =
  rt_methods :: "http_method list"
  rt_path :: "seg list"
  rt_endpoint :: endpoint

definition routes :: "route list" where
  "routes =
     [\<lparr>rt_methods = [GET, HEAD], rt_path = [Lit ''/openapi.json''], rt_endpoint = OpenapiEndpoint\<rparr>,
      \<lparr>rt_methods = [GET, HEAD], rt_path = [Lit ''/docs''], rt_endpoint = SwaggerEndpoint\<rparr>,
      \<lparr>rt_methods = [GET, HEAD], rt_path = [Lit ''/docs/oauth2-redirect''],
       rt_endpoint = SwaggerRedirectEndpoint\<rparr>,
      \<lparr>rt_methods = [GET, HEAD], rt_path = [Lit ''/redoc''], rt_endpoint = RedocEndpoint\<rparr>,
      \<lparr>rt_methods = [POST], rt_path = [Lit ''/prompts''], rt_endpoint = CreatePromptEndpoint\<rparr>,
      \<lparr>rt_methods = [GET], rt_path = [Lit ''/prompts/'', Param ''prompt_id''],
       rt_endpoint = GetPromptEndpoint\<rparr>,
      \<lparr>rt_methods = [GET], rt_path = [Lit ''/prompts/search''],
       rt_endpoint = SearchPromptsEndpoint\<rparr>]"

text \<open>
  The router walks the routes in order and hands the request to the first one whose path
  and method both match. When only paths matched, the answer is 405. When no path matched,
  the router looks at the path with its trailing slashes taken off, or with one slash
  added when it has none: when some route matches that path, whatever the method, the
  answer is a redirect to it; otherwise 404.
\<close>

datatype dispatched =
    Dispatched endpoint "(string \<times> string) list"
  | MethodNotAllowed
  | Redirect string
  | NoRoute

fun dispatch_from :: "bool \<Rightarrow> route list \<Rightarrow> request \<Rightarrow> dispatched" where
  "dispatch_from partial [] req = (if partial then MethodNotAllowed else NoRoute)"
| "dispatch_from partial (rt # rts) req =
     (case match_path (rt_path rt) (r_path req) of
        None \<Rightarrow> dispatch_from partial rts req
      | Some params \<Rightarrow>
          (if r_method req \<in> set (rt_methods rt) then Dispatched (rt_endpoint rt) params
           else dispatch_from True rts req))"

definition redirect_path :: "string \<Rightarrow> string" where
  "redirect_path path =
     (if path \<noteq> [] \<and> last path = CHR ''/''
      then rev (dropWhile (\<lambda>c. c = CHR ''/'') (rev path))
      else path @ ''/'')"

definition path_matches :: "route list \<Rightarrow> string \<Rightarrow> bool" where
  "path_matches rts path = list_ex (\<lambda>rt. match_path (rt_path rt) path \<noteq> None) rts"

definition dispatch :: "request \<Rightarrow> dispatched" where
  "dispatch req =
     (case dispatch_from False routes req of
        NoRoute \<Rightarrow>
          (if r_path req \<noteq> ''/'' \<and> path_matches routes (redirect_path (r_path req))
           then Redirect (redirect_path (r_path req))
           else NoRoute)
      | d \<Rightarrow> d)"

subsection \<open>The application\<close>

text \<open>
  Each route validates its inputs and only then calls its endpoint function. A validation
  error is answered with 422, an \<^verbatim>\<open>HTTPException\<close> with its own status, any other
  exception with 500, a redirect with 307.
\<close>

definition create_prompt_route ::
  "backend \<Rightarrow> string \<Rightarrow> request \<Rightarrow> world \<Rightarrow> (error + response) \<times> world" where
  "create_prompt_route be uuid4 req w =
     (case validate_body (r_body req) of
        Inl e \<Rightarrow> (Inl e, w)
      | Inr prompt \<Rightarrow> create_prompt be uuid4 prompt w)"

definition get_prompt_route ::
  "backend \<Rightarrow> (string \<times> string) list \<Rightarrow> world \<Rightarrow> (error + response) \<times> world" where
  "get_prompt_route be params w =
     (case map_of params ''prompt_id'' of
        None \<Rightarrow> (Inl RequestValidationError, w)
      | Some prompt_id \<Rightarrow> get_prompt be prompt_id w)"

definition search_prompts_route ::
  "backend \<Rightarrow> request \<Rightarrow> world \<Rightarrow> (error + response) \<times> world" where
  "search_prompts_route be req w =
     (case query_param req ''q'' of
        None \<Rightarrow> (Inl RequestValidationError, w)
      | Some q \<Rightarrow> search_prompts be q w)"

definition app :: "backend \<Rightarrow> string \<Rightarrow> request \<Rightarrow> world \<Rightarrow> (error + response) \<times> world" where
  "app be uuid4 req w =
     (case dispatch req of
        NoRoute \<Rightarrow> (Inl (HTTPException 404 ''Not Found''), w)
      | MethodNotAllowed \<Rightarrow> (Inl (HTTPException 405 ''Method Not Allowed''), w)
      | Redirect url \<Rightarrow> (Inr (RedirectResponse url), w)
      | Dispatched ep params \<Rightarrow>
          (case ep of
             CreatePromptEndpoint \<Rightarrow> create_prompt_route be uuid4 req w
           | GetPromptEndpoint \<Rightarrow> get_prompt_route be params w
           | SearchPromptsEndpoint \<Rightarrow> search_prompts_route be req w
           | _ \<Rightarrow> (Inr DocsResponse, w)))"

definition status_code :: "error + response \<Rightarrow> nat" where
  "status_code r =
     (case r of
        Inr (RedirectResponse _) \<Rightarrow> 307
      | Inr _ \<Rightarrow> 200
      | Inl RequestValidationError \<Rightarrow> 422
      | Inl (HTTPException c _) \<Rightarrow> c
      | Inl _ \<Rightarrow> 500)"

section \<open>Invariant, sequences of operations and sample data\<close>

text \<open>
  What every store built by the service satisfies: no two Tag nodes share a name, node
  identities are distinct and below the next free one, no edge is doubled and every edge
  end is an identity already given out.
\<close>

definition wf_graph :: "graph \<Rightarrow> bool" where
  "wf_graph g \<longleftrightarrow>
     distinct (map t_name (tag_nodes g)) \<and>
     distinct (map p_ident (prompt_nodes g) @ map t_ident (tag_nodes g)) \<and>
     list_all (\<lambda>i. i < next_ident g) (map p_ident (prompt_nodes g) @ map t_ident (tag_nodes g)) \<and>
     distinct (has_tag g) \<and>
     list_all (\<lambda>e. fst e < next_ident g \<and> snd e < next_ident g) (has_tag g)"

definition empty_world :: world where
  "empty_world = \<lparr>store = empty_graph, trace = []\<rparr>"

text \<open>
  A sequence of create calls, each with the identifier drawn for it and the fault the
  store has during it.
\<close>

fun create_all :: "engine \<Rightarrow> (fault \<times> string \<times> PromptCreate) list \<Rightarrow> world \<Rightarrow> world" where
  "create_all eng [] w = w"
| "create_all eng (c # cs) w =
     create_all eng cs (snd (create_prompt (neo4j eng (fst c)) (fst (snd c)) (snd (snd c)) w))"

text \<open>
  An engine for concrete checks: it scores a text by the number of places where the
  query occurs in it, and its parser rejects the empty query.
\<close>

fun occurrences :: "string \<Rightarrow> string \<Rightarrow> nat" where
  "occurrences q [] = 0"
| "occurrences q (c # cs) =
     (if take (length q) (c # cs) = q then 1 else 0) + occurrences q cs"

definition sample_engine :: engine where
  "sample_engine =
     \<lparr>accepts = (\<lambda>q. q \<noteq> []),
      relevance = (\<lambda>q t. if occurrences q t = 0 then None else Some (real (occurrences q t)))\<rparr>"

text \<open>A backend whose statements succeed without yielding any record.\<close>

definition silent_backend :: backend where
  "silent_backend = \<lparr>run = (\<lambda>s g. (Inr [], g)), commit = (\<lambda>g. None)\<rparr>"

text \<open>The dictionary that the search function builds from a row of the reference backend.\<close>

definition hit_dict :: "prompt_node \<times> real \<Rightarrow> search_dict" where
  "hit_dict h =
     \<lparr>s_id = Str (p_id (fst h)), s_text = Str (p_text (fst h)),
      s_source = (case p_source (fst h) of None \<Rightarrow> Null | Some s \<Rightarrow> Str s),
      s_score = Float (snd h)\<rparr>"

text \<open>
  A store with twelve prompts and no index yet: one text without the letter \<open>a\<close>, eleven
  texts with one to eleven of them.
\<close>

definition sample_graph :: graph where
  "sample_graph =
     \<lparr>prompt_nodes =
        [\<lparr>p_ident = 0, p_id = ''p0'', p_text = ''x'', p_source = None\<rparr>,
         \<lparr>p_ident = 1, p_id = ''p1'', p_text = ''aaa'', p_source = Some ''user''\<rparr>,
         \<lparr>p_ident = 2, p_id = ''p2'', p_text = ''a'', p_source = None\<rparr>,
         \<lparr>p_ident = 3, p_id = ''p3'', p_text = ''aa'', p_source = None\<rparr>,
         \<lparr>p_ident = 4, p_id = ''p4'', p_text = ''aaaaa'', p_source = None\<rparr>,
         \<lparr>p_ident = 5, p_id = ''p5'', p_text = ''aaaa'', p_source = None\<rparr>,
         \<lparr>p_ident = 6, p_id = ''p6'', p_text = ''aaaaaaa'', p_source = None\<rparr>,
         \<lparr>p_ident = 7, p_id = ''p7'', p_text = ''aaaaaa'', p_source = None\<rparr>,
         \<lparr>p_ident = 8, p_id = ''p8'', p_text = ''aaaaaaaaa'', p_source = None\<rparr>,
         \<lparr>p_ident = 9, p_id = ''p9'', p_text = ''aaaaaaaa'', p_source = None\<rparr>,
         \<lparr>p_ident = 10, p_id = ''p10'', p_text = ''aaaaaaaaaaa'', p_source = None\<rparr>,
         \<lparr>p_ident = 11, p_id = ''p11'', p_text = ''aaaaaaaaaa'', p_source = None\<rparr>],
      tag_nodes = [], has_tag = [], next_ident = 12, fulltext_index = False\<rparr>"

definition sample_world :: world where
  "sample_world = \<lparr>store = sample_graph, trace = []\<rparr>"

section \<open>Basic facts\<close>

lemma run_neo4j: "run (neo4j eng flt) = neo4j_run eng flt"
  by (simp add: neo4j_def)

lemma commit_neo4j_NoFault: "commit (neo4j eng NoFault) g = None"
  by (simp add: neo4j_def)

lemma get_prompt_rows_absent:
  "i \<notin> set (map p_id (prompt_nodes g)) \<Longrightarrow> get_prompt_rows i g = []"
  by (auto simp: get_prompt_rows_def filter_empty_conv)

lemma tx_get_prompt_absent:
  "prompt_id \<notin> set (map p_id (prompt_nodes (store w))) \<Longrightarrow>
   tx_get_prompt (neo4j eng NoFault) prompt_id w =
     (Inr None, \<lparr>store = store w, trace = trace w @ [Ran (GetPromptQuery prompt_id)]\<rparr>)"
  by (simp add: tx_get_prompt_def tx_run_def run_neo4j writes_done_def
      get_prompt_rows_absent single_def)

lemma get_prompt_absent:
  assumes "prompt_id \<notin> set (map p_id (prompt_nodes (store w)))"
  shows "get_prompt (neo4j eng NoFault) prompt_id w =
     (Inl (HTTPException 404 ''Prompt not found''),
      \<lparr>store = store w,
       trace = trace w @ [SessionAcquired, Ran (GetPromptQuery prompt_id), Committed,
                          SessionClosed]\<rparr>)"
proof -
  let ?w = "w\<lparr>trace := trace w @ [SessionAcquired]\<rparr>"
  have "prompt_id \<notin> set (map p_id (prompt_nodes (store ?w)))"
    using assms by simp
  from tx_get_prompt_absent [OF this, of eng] show ?thesis
    by (simp add: get_prompt_def with_session_def read_transaction_def commit_neo4j_NoFault)
qed

lemma dispatch_search_path:
  "r_method req = GET \<Longrightarrow> r_path req = ''/prompts/search'' \<Longrightarrow>
   dispatch req = Dispatched GetPromptEndpoint [(''prompt_id'', ''search'')]"
  by (simp add: dispatch_def routes_def)

lemma search_route_never_first:
  "dispatch_from False routes req \<noteq> Dispatched SearchPromptsEndpoint ps"
  by (simp add: routes_def split: option.splits if_splits)

lemma search_endpoint_unreachable:
  "dispatch req \<noteq> Dispatched SearchPromptsEndpoint ps"
  using search_route_never_first [of req ps]
  by (cases "dispatch_from False routes req") (auto simp add: dispatch_def)

lemma tags_or_empty_simps [simp]:
  "tags_or_empty None = []" "tags_or_empty (Some ts) = ts"
  by (simp_all add: tags_or_empty_def)

lemma create_prompt_ok:
  "create_prompt (neo4j eng NoFault) u p w =
     (Inr (CreateResponse (Str u)),
      \<lparr>store = create_prompt_writes u (pc_text p) (pc_source p) (tags_or_empty (pc_tags p))
                 (store w),
       trace = trace w @ [SessionAcquired,
                 Ran (CreatePromptQuery u (pc_text p) (pc_source p) (tags_or_empty (pc_tags p))),
                 Committed, SessionClosed]\<rparr>)"
  by (simp add: create_prompt_def with_session_def write_transaction_def tx_create_prompt_def
      tx_run_def run_neo4j commit_neo4j_NoFault writes_done_def single_def getitem_def Let_def)

lemma create_prompt_cases:
  "(fst (create_prompt (neo4j eng flt) u p w) = Inr (CreateResponse (Str u)) \<and>
    store (snd (create_prompt (neo4j eng flt) u p w)) =
      create_prompt_writes u (pc_text p) (pc_source p) (tags_or_empty (pc_tags p)) (store w)) \<or>
   (fst (create_prompt (neo4j eng flt) u p w) = Inl store_failure \<and>
    store (snd (create_prompt (neo4j eng flt) u p w)) = store w)"
  by (cases flt)
     (auto simp add: create_prompt_def with_session_def write_transaction_def
        tx_create_prompt_def tx_run_def run_neo4j neo4j_def writes_done_def single_def
        getitem_def rolled_back_def Let_def
      split: nat.splits)

lemma create_prompt_fault:
  "writes_done flt (Suc (length (tags_or_empty (pc_tags p)))) \<noteq> None \<or> flt = FailCommit \<Longrightarrow>
   fst (create_prompt (neo4j eng flt) u p w) = Inl store_failure"
  by (cases flt)
     (auto simp add: create_prompt_def with_session_def write_transaction_def
        tx_create_prompt_def tx_run_def run_neo4j neo4j_def writes_done_def single_def
        getitem_def rolled_back_def Let_def
      split: nat.splits if_splits)

lemma get_prompt_store_only:
  "store w = store w' \<Longrightarrow> fst (get_prompt be i w) = fst (get_prompt be i w')"
  by (simp add: get_prompt_def with_session_def read_transaction_def tx_get_prompt_def
      tx_run_def rolled_back_def split: prod.splits sum.splits option.splits)

lemma search_prompts_store_only:
  "store w = store w' \<Longrightarrow> fst (search_prompts be q w) = fst (search_prompts be q w')"
  by (simp add: search_prompts_def with_session_def read_transaction_def tx_search_prompts_def
      tx_run_def rolled_back_def split: prod.splits sum.splits option.splits)

lemma app_post_prompts:
  "r_method req = POST \<Longrightarrow> r_path req = ''/prompts'' \<Longrightarrow>
   app be u req w = create_prompt_route be u req w"
  by (simp add: app_def dispatch_def routes_def)

lemma search_of_records_hits: "search_of_records (map hit_row hs) = Inr (map hit_dict hs)"
  by (induction hs)
     (simp_all add: search_of_record_def hit_row_def hit_dict_def bind_err_def getitem_def)

lemma map_sort_key: "map f (sort_key f xs) = sort (map f xs)"
  by (rule properties_for_sort [symmetric]) simp_all

lemma sorted_uminus_rev:
  fixes zs :: "real list"
  shows "sorted zs \<Longrightarrow> sorted (map uminus (rev zs))"
  by (simp add: sorted_wrt_map sorted_wrt_rev rev_map [symmetric])

lemma sort_uminus:
  fixes xs :: "real list"
  shows "sort (map uminus xs) = map uminus (rev (sort xs))"
  by (rule properties_for_sort) (simp_all add: sorted_uminus_rev)

lemma scores_sort_key:
  fixes hs :: "('a \<times> real) list"
  shows "map snd (sort_key (\<lambda>h. - snd h) hs) = rev (sort (map snd hs))"
proof -
  have "map snd (sort_key (\<lambda>h. - snd h) hs) =
        map uminus (map (\<lambda>h. - snd h) (sort_key (\<lambda>h. - snd h) hs))"
    by (simp add: comp_def)
  also have "\<dots> = map uminus (sort (map (\<lambda>h. - snd h) hs))"
    by (simp only: map_sort_key)
  also have "map (\<lambda>h. - snd h) hs = map uminus (map snd hs)"
    by (simp add: comp_def)
  also have "map uminus (sort (map uminus (map snd hs))) = rev (sort (map snd hs))"
    by (simp only: sort_uminus) (simp add: comp_def)
  finally show ?thesis .
qed

lemma search_prompts_ok:
  assumes "accepts eng q"
  shows "search_prompts (neo4j eng NoFault) q w =
     (Inr (SearchResponse (map hit_dict
             (take 10 (sort_key (\<lambda>h. - snd h) (query_nodes eng q (store w)))))),
      \<lparr>store = (store w)\<lparr>fulltext_index := True\<rparr>,
       trace = trace w @ [SessionAcquired, Ran CreateIndexQuery, Ran (SearchQuery q), Committed,
                          SessionClosed]\<rparr>)"
  using assms
  by (simp add: search_prompts_def with_session_def read_transaction_def tx_search_prompts_def
      tx_run_def run_neo4j commit_neo4j_NoFault writes_done_def search_rows_def
      search_of_records_hits query_nodes_def)

lemma search_prompts_result:
  assumes "fst (search_prompts (neo4j eng flt) q w) = Inr (SearchResponse rs)"
  shows "rs = map hit_dict (take 10 (sort_key (\<lambda>h. - snd h) (query_nodes eng q (store w))))"
  using assms
  by (cases flt)
     (auto simp add: search_prompts_def with_session_def read_transaction_def
        tx_search_prompts_def tx_run_def run_neo4j neo4j_def writes_done_def search_rows_def
        search_of_records_hits query_nodes_def rolled_back_def
      split: if_splits)

lemma search_never_misses_index:
  "fst (search_prompts (neo4j eng flt) q w) \<noteq> Inl (Neo4jError ''no such fulltext index'')"
  by (cases flt)
     (auto simp add: search_prompts_def with_session_def read_transaction_def
        tx_search_prompts_def tx_run_def run_neo4j neo4j_def writes_done_def search_rows_def
        search_of_records_hits rolled_back_def store_failure_def
      split: if_splits)

lemma search_rejected:
  "\<not> accepts eng q \<Longrightarrow>
   fst (search_prompts (neo4j eng NoFault) q w) = Inl (Neo4jError ''cannot parse query'')"
  by (simp add: search_prompts_def with_session_def read_transaction_def tx_search_prompts_def
      tx_run_def run_neo4j commit_neo4j_NoFault writes_done_def rolled_back_def)

lemma tx_search_trace:
  "trace (snd (tx_search_prompts be q w)) = trace w @ [Ran CreateIndexQuery] \<or>
   trace (snd (tx_search_prompts be q w)) = trace w @ [Ran CreateIndexQuery, Ran (SearchQuery q)]"
  by (simp add: tx_search_prompts_def tx_run_def split: prod.splits sum.splits)

lemma fold_merge_edge_fields [simp]:
  "prompt_nodes (fold (\<lambda>t. merge_edge p (t_ident t)) ts g) = prompt_nodes g"
  "tag_nodes (fold (\<lambda>t. merge_edge p (t_ident t)) ts g) = tag_nodes g"
  "next_ident (fold (\<lambda>t. merge_edge p (t_ident t)) ts g) = next_ident g"
  "fulltext_index (fold (\<lambda>t. merge_edge p (t_ident t)) ts g) = fulltext_index g"
  by (induction ts arbitrary: g; simp add: merge_edge_def)+

lemma set_fold_merge_edge:
  "set (has_tag (fold (\<lambda>t. merge_edge p (t_ident t)) ts g)) =
     set (has_tag g) \<union> (\<lambda>t. (p, t_ident t)) ` set ts"
  by (induction ts arbitrary: g) (auto simp add: merge_edge_def)

lemma distinct_fold_merge_edge:
  "distinct (has_tag g) \<Longrightarrow> distinct (has_tag (fold (\<lambda>t. merge_edge p (t_ident t)) ts g))"
  by (induction ts arbitrary: g) (auto simp add: merge_edge_def)

lemma merge_tag_node_fields [simp]:
  "prompt_nodes (merge_tag_node n g) = prompt_nodes g"
  "has_tag (merge_tag_node n g) = has_tag g"
  "fulltext_index (merge_tag_node n g) = fulltext_index g"
  by (simp_all add: merge_tag_node_def)

lemma foreach_tag_fields [simp]:
  "prompt_nodes (foreach_tag p n g) = prompt_nodes g"
  "fulltext_index (foreach_tag p n g) = fulltext_index g"
  by (simp_all add: foreach_tag_def Let_def)

lemma next_ident_foreach_tag: "next_ident g \<le> next_ident (foreach_tag p n g)"
  by (simp add: foreach_tag_def Let_def merge_tag_node_def)

lemma wf_merge_tag_node: "wf_graph g \<Longrightarrow> wf_graph (merge_tag_node n g)"
  by (auto simp add: wf_graph_def merge_tag_node_def list_all_iff less_Suc_eq)

lemma wf_foreach_tag:
  assumes "wf_graph g" and "p < next_ident g"
  shows "wf_graph (foreach_tag p n g)"
proof -
  let ?g1 = "merge_tag_node n g"
  have w1: "wf_graph ?g1" using assms(1) by (rule wf_merge_tag_node)
  have p1: "p < next_ident ?g1" using assms(2) by (simp add: merge_tag_node_def)
  show ?thesis
    using w1 p1
    by (auto simp add: foreach_tag_def Let_def wf_graph_def distinct_fold_merge_edge
        set_fold_merge_edge list_all_iff)
qed

lemma set_collect_tag_names:
  "set (collect_tag_names p g) =
     {t_name t | t. t \<in> set (tag_nodes g) \<and> (p, t_ident t) \<in> set (has_tag g)}"
  by (auto simp add: collect_tag_names_def)

lemma wf_tag_facts:
  assumes "wf_graph g"
  shows "inj_on t_name (set (tag_nodes g))" and "inj_on t_ident (set (tag_nodes g))"
    and "\<And>t. t \<in> set (tag_nodes g) \<Longrightarrow> t_ident t < next_ident g"
    and "\<And>e. e \<in> set (has_tag g) \<Longrightarrow> fst e < next_ident g \<and> snd e < next_ident g"
    and "distinct (has_tag g)" and "distinct (map t_name (tag_nodes g))"
    and "distinct (map t_ident (tag_nodes g))"
  using assms by (auto simp add: wf_graph_def list_all_iff distinct_map)

lemma set_collect_image:
  "set (collect_tag_names p g) =
     t_name ` {t \<in> set (tag_nodes g). (p, t_ident t) \<in> set (has_tag g)}"
  by (auto simp add: collect_tag_names_def)

lemma tag_nodes_merge_tag_node:
  "tag_nodes (merge_tag_node n g) =
     (if n \<in> set (map t_name (tag_nodes g)) then tag_nodes g
      else tag_nodes g @ [\<lparr>t_ident = next_ident g, t_name = n\<rparr>])"
  by (simp add: merge_tag_node_def)

lemma tag_nodes_foreach_tag:
  "tag_nodes (foreach_tag p n g) = tag_nodes (merge_tag_node n g)"
  by (simp add: foreach_tag_def Let_def)

lemma set_has_tag_foreach_tag:
  "set (has_tag (foreach_tag p n g)) =
     set (has_tag g) \<union>
     (\<lambda>t. (p, t_ident t)) ` {t \<in> set (tag_nodes (merge_tag_node n g)). t_name t = n}"
  by (simp add: foreach_tag_def Let_def set_fold_merge_edge)

lemma foreach_tag_names:
  assumes "wf_graph g" and "p < next_ident g"
  shows "set (collect_tag_names p' (foreach_tag p n g)) =
           (if p' = p then insert n (set (collect_tag_names p g))
            else set (collect_tag_names p' g))"
proof (cases "n \<in> set (map t_name (tag_nodes g))")
  case True
  from True obtain t0 where t0: "t0 \<in> set (tag_nodes g)" "t_name t0 = n"
    by auto
  have inj: "inj_on t_ident (set (tag_nodes g))"
    using assms(1) by (rule wf_tag_facts)
  show ?thesis
    using True t0 inj
    by (auto simp add: set_collect_tag_names tag_nodes_foreach_tag set_has_tag_foreach_tag
        tag_nodes_merge_tag_node dest: inj_onD)
next
  case False
  have lt: "\<And>t. t \<in> set (tag_nodes g) \<Longrightarrow> t_ident t < next_ident g"
    and ed: "\<And>e. e \<in> set (has_tag g) \<Longrightarrow> fst e < next_ident g \<and> snd e < next_ident g"
    using assms(1) by (auto dest: wf_tag_facts)
  have no: "(a, next_ident g) \<notin> set (has_tag g)" for a
    using ed [of "(a, next_ident g)"] by auto
  let ?new = "\<lparr>t_ident = next_ident g, t_name = n\<rparr>"
  have S: "{t \<in> set (tag_nodes (merge_tag_node n g)). t_name t = n} = {?new}"
    using False by (auto simp add: tag_nodes_merge_tag_node)
  have E: "set (has_tag (foreach_tag p n g)) = insert (p, next_ident g) (set (has_tag g))"
    by (simp add: set_has_tag_foreach_tag S)
  have T: "set (tag_nodes (foreach_tag p n g)) = insert ?new (set (tag_nodes g))"
    using False by (simp add: tag_nodes_foreach_tag tag_nodes_merge_tag_node)
  have old: "t_ident t \<noteq> next_ident g" if "t \<in> set (tag_nodes g)" for t
    using lt [OF that] by simp
  have "{t \<in> insert ?new (set (tag_nodes g)).
           (p', t_ident t) \<in> insert (p, next_ident g) (set (has_tag g))} =
        (if p' = p then insert ?new {t \<in> set (tag_nodes g). (p, t_ident t) \<in> set (has_tag g)}
         else {t \<in> set (tag_nodes g). (p', t_ident t) \<in> set (has_tag g)})"
    using no old by auto
  then show ?thesis
    by (simp add: set_collect_image E T)
qed

lemma distinct_collect_aux:
  assumes "inj_on t_name (set ts)" and "distinct (map t_name ts)"
  shows "distinct es \<Longrightarrow>
         distinct (concat (map (\<lambda>e. if fst e = p
                                    then map t_name (filter (\<lambda>t. t_ident t = snd e) ts)
                                    else []) es))"
proof (induction es)
  case Nil
  then show ?case by simp
next
  case (Cons e es)
  have d: "distinct (map t_name (filter (\<lambda>t. t_ident t = snd e) ts))"
    using assms(2) by (rule distinct_map_filter)
  have "e' \<noteq> e" if "e' \<in> set es" for e'
    using that Cons.prems by auto
  then show ?case
    using Cons d assms(1)
    by (auto simp add: prod_eq_iff dest!: inj_onD)
qed

lemma distinct_collect_tag_names:
  "wf_graph g \<Longrightarrow> distinct (collect_tag_names p g)"
  unfolding collect_tag_names_def
  by (rule distinct_collect_aux) (auto dest: wf_tag_facts)


lemma fold_foreach_tag_fields [simp]:
  "prompt_nodes (fold (foreach_tag p) tags g) = prompt_nodes g"
  "fulltext_index (fold (foreach_tag p) tags g) = fulltext_index g"
  by (induction tags arbitrary: g; simp)+

lemma fold_foreach_tag:
  "wf_graph g \<Longrightarrow> p < next_ident g \<Longrightarrow>
   wf_graph (fold (foreach_tag p) tags g) \<and>
   next_ident g \<le> next_ident (fold (foreach_tag p) tags g) \<and>
   set (collect_tag_names p' (fold (foreach_tag p) tags g)) =
     (if p' = p then set tags \<union> set (collect_tag_names p g)
      else set (collect_tag_names p' g))"
proof (induction tags arbitrary: g)
  case Nil
  then show ?case by simp
next
  case (Cons n tags)
  let ?g1 = "foreach_tag p n g"
  have w1: "wf_graph ?g1"
    using Cons.prems by (rule wf_foreach_tag)
  have le: "next_ident g \<le> next_ident ?g1"
    by (rule next_ident_foreach_tag)
  with Cons.prems have p1: "p < next_ident ?g1"
    by simp
  from Cons.IH [OF w1 p1] le foreach_tag_names [OF Cons.prems, of p' n]
  show ?case by auto
qed

lemma wf_create_prompt_node: "wf_graph g \<Longrightarrow> wf_graph (create_prompt_node i t s g)"
  by (auto simp add: wf_graph_def create_prompt_node_def list_all_iff less_Suc_eq)

lemma collect_create_prompt_node:
  "collect_tag_names p (create_prompt_node i t s g) = collect_tag_names p g"
  by (simp add: collect_tag_names_def create_prompt_node_def cong: if_cong)

lemma collect_fresh:
  assumes "wf_graph g"
  shows "collect_tag_names (next_ident g) g = []"
proof -
  have "fst e \<noteq> next_ident g" if "e \<in> set (has_tag g)" for e
    using wf_tag_facts(4) [OF assms that] by simp
  then show ?thesis
    by (simp add: collect_tag_names_def)
qed

lemma create_prompt_writes_wf:
  assumes "wf_graph g"
  shows "wf_graph (create_prompt_writes i t s tags g)"
    and "next_ident g < next_ident (create_prompt_writes i t s tags g)"
    and "set (collect_tag_names p' (create_prompt_writes i t s tags g)) =
           (if p' = next_ident g then set tags else set (collect_tag_names p' g))"
    and "distinct (collect_tag_names p' (create_prompt_writes i t s tags g))"
proof -
  let ?g0 = "create_prompt_node i t s g"
  have w0: "wf_graph ?g0"
    using assms by (rule wf_create_prompt_node)
  have p0: "next_ident g < next_ident ?g0"
    by (simp add: create_prompt_node_def)
  note f = fold_foreach_tag [OF w0 p0, of tags p']
  show w: "wf_graph (create_prompt_writes i t s tags g)"
    using f by (simp add: create_prompt_writes_def)
  show "next_ident g < next_ident (create_prompt_writes i t s tags g)"
    using f p0 by (simp add: create_prompt_writes_def)
  show "set (collect_tag_names p' (create_prompt_writes i t s tags g)) =
           (if p' = next_ident g then set tags else set (collect_tag_names p' g))"
    using f collect_fresh [OF assms]
    by (simp add: create_prompt_writes_def collect_create_prompt_node)
  show "distinct (collect_tag_names p' (create_prompt_writes i t s tags g))"
    using w by (rule distinct_collect_tag_names)
qed

lemma prompt_nodes_create_prompt_writes:
  "prompt_nodes (create_prompt_writes i t s tags g) =
     prompt_nodes g @ [\<lparr>p_ident = next_ident g, p_id = i, p_text = t, p_source = s\<rparr>]"
  by (simp add: create_prompt_writes_def create_prompt_node_def)

lemma get_prompt_rows_created:
  assumes "i \<notin> set (map p_id (prompt_nodes g))"
  shows "get_prompt_rows i (create_prompt_writes i t s tags g) =
     [[(''p'', node_val \<lparr>p_ident = next_ident g, p_id = i, p_text = t, p_source = s\<rparr>),
       (''tags'', StrList (collect_tag_names (next_ident g)
                     (create_prompt_writes i t s tags g)))]]"
proof -
  have "filter (\<lambda>p. p_id p = i) (prompt_nodes g) = []"
    using assms by (auto simp add: filter_empty_conv)
  then show ?thesis
    by (simp add: get_prompt_rows_def prompt_nodes_create_prompt_writes)
qed

lemma prompt_of_record_created:
  "prompt_of_record
     [(''p'', node_val \<lparr>p_ident = k, p_id = i, p_text = t, p_source = s\<rparr>),
      (''tags'', StrList ts)] =
   Inr \<lparr>d_id = Str i, d_text = Str t,
        d_source = (case s of None \<Rightarrow> Null | Some x \<Rightarrow> Str x), d_tags = StrList ts\<rparr>"
  by (cases s) (simp_all add: prompt_of_record_def bind_err_def getitem_def node_val_def)

lemma get_prompt_created:
  assumes "i \<notin> set (map p_id (prompt_nodes (store w)))"
    and "store w' = create_prompt_writes i t s tags (store w)"
  shows "fst (get_prompt (neo4j eng NoFault) i w') =
     Inr (PromptResponse
       \<lparr>d_id = Str i, d_text = Str t,
        d_source = (case s of None \<Rightarrow> Null | Some x \<Rightarrow> Str x),
        d_tags = StrList (collect_tag_names (next_ident (store w)) (store w'))\<rparr>)"
  using get_prompt_rows_created [OF assms(1), of t s tags]
  by (simp add: get_prompt_def with_session_def read_transaction_def tx_get_prompt_def
      tx_run_def run_neo4j commit_neo4j_NoFault writes_done_def single_def assms(2)
      prompt_of_record_created bind_err_def)


lemma wf_empty_graph: "wf_graph empty_graph"
  by (simp add: wf_graph_def empty_graph_def)

lemma foreach_tag_links:
  "t \<in> set (tag_nodes (foreach_tag p n g)) \<Longrightarrow> t_name t = n \<Longrightarrow>
   (p, t_ident t) \<in> set (has_tag (foreach_tag p n g))"
  by (auto simp add: set_has_tag_foreach_tag tag_nodes_foreach_tag)

lemma name_in_foreach_tag: "n \<in> set (map t_name (tag_nodes (foreach_tag p n g)))"
  by (auto simp add: tag_nodes_foreach_tag tag_nodes_merge_tag_node)

lemma foreach_tag_keeps_links:
  assumes "n \<in> set (map t_name (tag_nodes g))"
    and "\<forall>t\<in>set (tag_nodes g). t_name t = n \<longrightarrow> (p', t_ident t) \<in> set (has_tag g)"
  shows "n \<in> set (map t_name (tag_nodes (foreach_tag p m g))) \<and>
         (\<forall>t\<in>set (tag_nodes (foreach_tag p m g)).
            t_name t = n \<longrightarrow> (p', t_ident t) \<in> set (has_tag (foreach_tag p m g)))"
  using assms
  by (auto simp add: set_has_tag_foreach_tag tag_nodes_foreach_tag tag_nodes_merge_tag_node)

lemma fold_foreach_keeps_links:
  "n \<in> set (map t_name (tag_nodes g)) \<Longrightarrow>
   \<forall>t\<in>set (tag_nodes g). t_name t = n \<longrightarrow> (p', t_ident t) \<in> set (has_tag g) \<Longrightarrow>
   n \<in> set (map t_name (tag_nodes (fold (foreach_tag p) tags g))) \<and>
   (\<forall>t\<in>set (tag_nodes (fold (foreach_tag p) tags g)).
      t_name t = n \<longrightarrow> (p', t_ident t) \<in> set (has_tag (fold (foreach_tag p) tags g)))"
proof (induction tags arbitrary: g)
  case Nil
  then show ?case by simp
next
  case (Cons m tags)
  from foreach_tag_keeps_links [OF Cons.prems, of p m]
  have "n \<in> set (map t_name (tag_nodes (foreach_tag p m g)))"
    and "\<forall>t\<in>set (tag_nodes (foreach_tag p m g)).
           t_name t = n \<longrightarrow> (p', t_ident t) \<in> set (has_tag (foreach_tag p m g))"
    by blast+
  from Cons.IH [OF this] show ?case by simp
qed

lemma fold_foreach_links:
  "n \<in> set tags \<Longrightarrow>
   n \<in> set (map t_name (tag_nodes (fold (foreach_tag p) tags g))) \<and>
   (\<forall>t\<in>set (tag_nodes (fold (foreach_tag p) tags g)).
      t_name t = n \<longrightarrow> (p, t_ident t) \<in> set (has_tag (fold (foreach_tag p) tags g)))"
proof (induction tags arbitrary: g)
  case Nil
  then show ?case by simp
next
  case (Cons m tags)
  show ?case
  proof (cases "m = n")
    case True
    have "n \<in> set (map t_name (tag_nodes (foreach_tag p n g)))"
      by (rule name_in_foreach_tag)
    moreover have "\<forall>t\<in>set (tag_nodes (foreach_tag p n g)).
           t_name t = n \<longrightarrow> (p, t_ident t) \<in> set (has_tag (foreach_tag p n g))"
      using foreach_tag_links by blast
    ultimately show ?thesis
      using fold_foreach_keeps_links [of n "foreach_tag p n g" p p tags] True by simp
  next
    case False
    with Cons.prems have "n \<in> set tags" by simp
    from Cons.IH [OF this] show ?thesis by simp
  qed
qed

lemma create_prompt_node_graph [simp]:
  "tag_nodes (create_prompt_node i t s g) = tag_nodes g"
  "has_tag (create_prompt_node i t s g) = has_tag g"
  by (simp_all add: create_prompt_node_def)

lemma create_writes_links:
  "n \<in> set tags \<Longrightarrow>
   n \<in> set (map t_name (tag_nodes (create_prompt_writes i t s tags g))) \<and>
   (\<forall>x\<in>set (tag_nodes (create_prompt_writes i t s tags g)).
      t_name x = n \<longrightarrow> (next_ident g, t_ident x) \<in> set (has_tag (create_prompt_writes i t s tags g)))"
  unfolding create_prompt_writes_def by (rule fold_foreach_links)

lemma create_writes_keeps_links:
  "n \<in> set (map t_name (tag_nodes g)) \<Longrightarrow>
   \<forall>x\<in>set (tag_nodes g). t_name x = n \<longrightarrow> (p', t_ident x) \<in> set (has_tag g) \<Longrightarrow>
   n \<in> set (map t_name (tag_nodes (create_prompt_writes i t s tags g))) \<and>
   (\<forall>x\<in>set (tag_nodes (create_prompt_writes i t s tags g)).
      t_name x = n \<longrightarrow> (p', t_ident x) \<in> set (has_tag (create_prompt_writes i t s tags g)))"
  unfolding create_prompt_writes_def by (rule fold_foreach_keeps_links) simp_all

lemma unique_filter:
  "distinct (map f xs) \<Longrightarrow> x \<in> set (map f xs) \<Longrightarrow> length (filter (\<lambda>t. f t = x) xs) = 1"
proof (induction xs)
  case Nil
  then show ?case by simp
next
  case (Cons a xs)
  show ?case
  proof (cases "f a = x")
    case True
    from Cons.prems(1) have "f a \<notin> f ` set xs"
      by simp
    then have "f t \<noteq> f a" if "t \<in> set xs" for t
      using that by (metis imageI)
    with True have "filter (\<lambda>t. f t = x) xs = []"
      by (simp add: filter_empty_conv)
    with True show ?thesis by simp
  next
    case False
    with Cons show ?thesis by auto
  qed
qed

lemma wf_create_prompt:
  assumes "wf_graph (store w)"
  shows "wf_graph (store (snd (create_prompt (neo4j eng flt) u p w)))"
  using create_prompt_cases [of eng flt u p w] assms create_prompt_writes_wf(1) [OF assms]
  by auto

lemma wf_create_all:
  "wf_graph (store w) \<Longrightarrow> wf_graph (store (create_all eng cs w))"
  by (induction cs arbitrary: w) (simp_all add: wf_create_prompt)

lemma create_prompt_store:
  "store (snd (create_prompt (neo4j eng NoFault) u p w)) =
     create_prompt_writes u (pc_text p) (pc_source p) (tags_or_empty (pc_tags p)) (store w)"
  by (simp add: create_prompt_ok)

lemma create_prompt_keeps_links:
  assumes "n \<in> set (map t_name (tag_nodes (store w)))"
    and "\<forall>x\<in>set (tag_nodes (store w)). t_name x = n \<longrightarrow> (p', t_ident x) \<in> set (has_tag (store w))"
  shows "n \<in> set (map t_name (tag_nodes (store (snd (create_prompt (neo4j eng flt) u p w))))) \<and>
         (\<forall>x\<in>set (tag_nodes (store (snd (create_prompt (neo4j eng flt) u p w)))).
            t_name x = n \<longrightarrow>
            (p', t_ident x) \<in> set (has_tag (store (snd (create_prompt (neo4j eng flt) u p w)))))"
proof -
  from create_prompt_cases [of eng flt u p w]
  consider
    "store (snd (create_prompt (neo4j eng flt) u p w)) =
       create_prompt_writes u (pc_text p) (pc_source p) (tags_or_empty (pc_tags p)) (store w)"
    | "store (snd (create_prompt (neo4j eng flt) u p w)) = store w"
    by blast
  then show ?thesis
  proof cases
    case 1
    show ?thesis
      unfolding 1 using assms by (rule create_writes_keeps_links)
  next
    case 2
    show ?thesis
      unfolding 2 using assms by blast
  qed
qed

lemma create_all_keeps_links:
  "n \<in> set (map t_name (tag_nodes (store w))) \<Longrightarrow>
   \<forall>x\<in>set (tag_nodes (store w)). t_name x = n \<longrightarrow> (p', t_ident x) \<in> set (has_tag (store w)) \<Longrightarrow>
   n \<in> set (map t_name (tag_nodes (store (create_all eng cs w)))) \<and>
   (\<forall>x\<in>set (tag_nodes (store (create_all eng cs w))).
      t_name x = n \<longrightarrow> (p', t_ident x) \<in> set (has_tag (store (create_all eng cs w))))"
proof (induction cs arbitrary: w)
  case Nil
  then show ?case by simp
next
  case (Cons c cs)
  from create_prompt_keeps_links [OF Cons.prems, of eng "fst c" "fst (snd c)" "snd (snd c)"]
  have "n \<in> set (map t_name (tag_nodes (store (snd (create_prompt (neo4j eng (fst c))
              (fst (snd c)) (snd (snd c)) w)))))"
    and "\<forall>x\<in>set (tag_nodes (store (snd (create_prompt (neo4j eng (fst c))
              (fst (snd c)) (snd (snd c)) w)))).
           t_name x = n \<longrightarrow>
           (p', t_ident x) \<in> set (has_tag (store (snd (create_prompt (neo4j eng (fst c))
              (fst (snd c)) (snd (snd c)) w))))"
    by blast+
  from Cons.IH [OF this] show ?case by simp
qed

lemma create_prompt_keeps_prompts:
  "set (prompt_nodes (store w)) \<subseteq>
   set (prompt_nodes (store (snd (create_prompt (neo4j eng flt) u p w))))"
  using create_prompt_cases [of eng flt u p w]
  by (auto simp add: prompt_nodes_create_prompt_writes)

lemma create_all_keeps_prompts:
  "set (prompt_nodes (store w)) \<subseteq> set (prompt_nodes (store (create_all eng cs w)))"
proof (induction cs arbitrary: w)
  case Nil
  then show ?case by simp
next
  case (Cons c cs)
  from create_prompt_keeps_prompts [of w eng "fst c" "fst (snd c)" "snd (snd c)"]
       Cons.IH [of "snd (create_prompt (neo4j eng (fst c)) (fst (snd c)) (snd (snd c)) w)"]
  show ?case by auto
qed

lemma get_prompt_store:
  "store (snd (get_prompt (neo4j eng flt) i w)) = store w"
  by (cases flt)
     (simp_all add: get_prompt_def with_session_def read_transaction_def tx_get_prompt_def
        tx_run_def run_neo4j neo4j_def writes_done_def rolled_back_def
      split: prod.splits sum.splits option.splits if_splits)

lemma search_prompts_store:
  "store (snd (search_prompts (neo4j eng flt) q w)) = store w \<or>
   store (snd (search_prompts (neo4j eng flt) q w)) = (store w)\<lparr>fulltext_index := True\<rparr>"
  by (cases flt)
     (simp_all add: search_prompts_def with_session_def read_transaction_def
        tx_search_prompts_def tx_run_def run_neo4j neo4j_def writes_done_def rolled_back_def
      split: prod.splits sum.splits option.splits if_splits)

lemma wf_index: "wf_graph (g\<lparr>fulltext_index := True\<rparr>) = wf_graph g"
  by (simp add: wf_graph_def)

lemma wf_search_prompts:
  assumes "wf_graph (store w)"
  shows "wf_graph (store (snd (search_prompts (neo4j eng flt) q w)))"
  using search_prompts_store [of eng flt q w] assms by (auto simp add: wf_index)

text \<open>The invariant holds after every request that the application serves.\<close>

lemma wf_app:
  assumes "wf_graph (store w)"
  shows "wf_graph (store (snd (app (neo4j eng flt) u req w)))"
proof (cases "dispatch req")
  case (Dispatched ep params)
  show ?thesis
  proof (cases ep)
    case CreatePromptEndpoint
    then show ?thesis
      using assms Dispatched
      by (simp add: app_def create_prompt_route_def wf_create_prompt split: sum.splits)
  next
    case GetPromptEndpoint
    then show ?thesis
      using assms Dispatched
      by (simp add: app_def get_prompt_route_def get_prompt_store split: option.splits)
  next
    case SearchPromptsEndpoint
    then show ?thesis
      using assms Dispatched
      by (simp add: app_def search_prompts_route_def wf_search_prompts split: option.splits)
  qed (use assms Dispatched in \<open>simp_all add: app_def\<close>)
qed (use assms in \<open>simp_all add: app_def\<close>)

lemma prompt_ids_create_prompt:
  "set (map p_id (prompt_nodes (store (snd (create_prompt (neo4j eng flt) u p w))))) \<subseteq>
   insert u (set (map p_id (prompt_nodes (store w))))"
  using create_prompt_cases [of eng flt u p w]
  by (auto simp add: prompt_nodes_create_prompt_writes)

lemma prompt_ids_create_all:
  "set (map p_id (prompt_nodes (store (create_all eng cs w)))) \<subseteq>
   set (map (\<lambda>c. fst (snd c)) cs) \<union> set (map p_id (prompt_nodes (store w)))"
proof (induction cs arbitrary: w)
  case Nil
  then show ?case by simp
next
  case (Cons c cs)
  from Cons.IH [of "snd (create_prompt (neo4j eng (fst c)) (fst (snd c)) (snd (snd c)) w)"]
       prompt_ids_create_prompt [of eng "fst c" "fst (snd c)" "snd (snd c)" w]
  show ?case by auto
qed

lemma names_foreach_tag:
  "set (map t_name (tag_nodes (foreach_tag p n g))) = insert n (set (map t_name (tag_nodes g)))"
  by (auto simp add: tag_nodes_foreach_tag tag_nodes_merge_tag_node)

lemma tag_nodes_foreach_tag_mono:
  "set (tag_nodes g) \<subseteq> set (tag_nodes (foreach_tag p n g))"
  by (auto simp add: tag_nodes_foreach_tag tag_nodes_merge_tag_node)

lemma named_foreach_tag_stable:
  "n \<in> set (map t_name (tag_nodes g)) \<Longrightarrow>
   {t \<in> set (tag_nodes (foreach_tag p m g)). t_name t = n} =
   {t \<in> set (tag_nodes g). t_name t = n}"
  by (auto simp add: tag_nodes_foreach_tag tag_nodes_merge_tag_node)

lemma names_fold_foreach_tag:
  "set (map t_name (tag_nodes (fold (foreach_tag p) tags g))) =
     set (map t_name (tag_nodes g)) \<union> set tags"
proof (induction tags arbitrary: g)
  case Nil
  then show ?case by simp
next
  case (Cons n tags)
  from Cons.IH [of "foreach_tag p n g"] names_foreach_tag [of p n g]
  show ?case by auto
qed

lemma tag_nodes_fold_mono:
  "set (tag_nodes g) \<subseteq> set (tag_nodes (fold (foreach_tag p) tags g))"
proof (induction tags arbitrary: g)
  case Nil
  then show ?case by simp
next
  case (Cons n tags)
  from Cons.IH [of "foreach_tag p n g"] tag_nodes_foreach_tag_mono [of g p n]
  show ?case by auto
qed

lemma named_fold_stable:
  "n \<in> set (map t_name (tag_nodes g)) \<Longrightarrow>
   {t \<in> set (tag_nodes (fold (foreach_tag p) tags g)). t_name t = n} =
   {t \<in> set (tag_nodes g). t_name t = n}"
proof (induction tags arbitrary: g)
  case Nil
  then show ?case by simp
next
  case (Cons m tags)
  have "n \<in> set (map t_name (tag_nodes (foreach_tag p m g)))"
    using Cons.prems names_foreach_tag [of p m g] by auto
  from Cons.IH [OF this] named_foreach_tag_stable [OF Cons.prems, of p m]
  show ?case by simp
qed

lemma has_tag_foreach_tag:
  "set (has_tag (foreach_tag p n g)) =
     set (has_tag g) \<union>
     (\<lambda>t. (p, t_ident t)) ` {t \<in> set (tag_nodes (foreach_tag p n g)). t_name t = n}"
  by (simp add: set_has_tag_foreach_tag tag_nodes_foreach_tag)

lemma has_tag_fold_foreach_tag:
  "set (has_tag (fold (foreach_tag p) tags g)) =
     set (has_tag g) \<union>
     (\<lambda>t. (p, t_ident t)) `
       {t \<in> set (tag_nodes (fold (foreach_tag p) tags g)). t_name t \<in> set tags}"
proof (induction tags arbitrary: g)
  case Nil
  then show ?case by simp
next
  case (Cons n tags)
  let ?g1 = "foreach_tag p n g"
  let ?gz = "fold (foreach_tag p) tags ?g1"
  have n1: "n \<in> set (map t_name (tag_nodes ?g1))"
    by (rule name_in_foreach_tag)
  have st: "{t \<in> set (tag_nodes ?gz). t_name t = n} = {t \<in> set (tag_nodes ?g1). t_name t = n}"
    using n1 by (rule named_fold_stable)
  have "set (has_tag ?gz) =
          set (has_tag ?g1) \<union>
          (\<lambda>t. (p, t_ident t)) ` {t \<in> set (tag_nodes ?gz). t_name t \<in> set tags}"
    by (rule Cons.IH)
  also have "set (has_tag ?g1) =
          set (has_tag g) \<union> (\<lambda>t. (p, t_ident t)) ` {t \<in> set (tag_nodes ?gz). t_name t = n}"
    by (simp only: has_tag_foreach_tag st)
  finally show ?case
    by auto
qed

lemma create_prompt_writes_content:
  "prompt_nodes (create_prompt_writes i t s tags g) =
     prompt_nodes g @ [\<lparr>p_ident = next_ident g, p_id = i, p_text = t, p_source = s\<rparr>]"
  "set (tag_nodes g) \<subseteq> set (tag_nodes (create_prompt_writes i t s tags g))"
  "set (map t_name (tag_nodes (create_prompt_writes i t s tags g))) =
     set (map t_name (tag_nodes g)) \<union> set tags"
  "set (has_tag (create_prompt_writes i t s tags g)) =
     set (has_tag g) \<union>
     (\<lambda>x. (next_ident g, t_ident x)) `
       {x \<in> set (tag_nodes (create_prompt_writes i t s tags g)). t_name x \<in> set tags}"
  "fulltext_index (create_prompt_writes i t s tags g) = fulltext_index g"
proof -
  show "prompt_nodes (create_prompt_writes i t s tags g) =
     prompt_nodes g @ [\<lparr>p_ident = next_ident g, p_id = i, p_text = t, p_source = s\<rparr>]"
    by (rule prompt_nodes_create_prompt_writes)
  show "set (tag_nodes g) \<subseteq> set (tag_nodes (create_prompt_writes i t s tags g))"
    unfolding create_prompt_writes_def
    using tag_nodes_fold_mono [of "create_prompt_node i t s g" "next_ident g" tags] by simp
  show "set (map t_name (tag_nodes (create_prompt_writes i t s tags g))) =
     set (map t_name (tag_nodes g)) \<union> set tags"
    unfolding create_prompt_writes_def by (simp only: names_fold_foreach_tag) simp
  show "set (has_tag (create_prompt_writes i t s tags g)) =
     set (has_tag g) \<union>
     (\<lambda>x. (next_ident g, t_ident x)) `
       {x \<in> set (tag_nodes (create_prompt_writes i t s tags g)). t_name x \<in> set tags}"
    unfolding create_prompt_writes_def by (simp only: has_tag_fold_foreach_tag) simp
  show "fulltext_index (create_prompt_writes i t s tags g) = fulltext_index g"
    by (simp add: create_prompt_writes_def create_prompt_node_def)
qed


lemma tx_create_prompt_partial:
  "k < length tags \<Longrightarrow>
   tx_create_prompt (neo4j eng (FailAfter (Suc k))) i t s tags w =
     (Inl store_failure,
      \<lparr>store = create_prompt_writes i t s (take k tags) (store w),
       trace = trace w @ [Ran (CreatePromptQuery i t s tags)]\<rparr>)"
  by (simp add: tx_create_prompt_def tx_run_def run_neo4j writes_done_def)

lemma create_prompt_trace:
  "\<exists>ev. trace (snd (create_prompt be u p w)) =
     trace w @ [SessionAcquired,
       Ran (CreatePromptQuery u (pc_text p) (pc_source p) (tags_or_empty (pc_tags p))),
       ev, SessionClosed]"
  by (simp add: create_prompt_def with_session_def write_transaction_def tx_create_prompt_def
      tx_run_def rolled_back_def Let_def getitem_def
      split: prod.splits sum.splits option.splits if_splits)

lemma search_prompts_trace:
  "\<exists>rest. trace (snd (search_prompts be q w)) =
     trace w @ SessionAcquired # Ran CreateIndexQuery # rest"
  by (simp add: search_prompts_def with_session_def read_transaction_def tx_search_prompts_def
      tx_run_def rolled_back_def
      split: prod.splits sum.splits option.splits if_splits)

section \<open>Routing\<close>

text \<open>
  C2. The route \<^verbatim>\<open>/prompts/{prompt_id}\<close> is registered before \<^verbatim>\<open>/prompts/search\<close>, so
  every GET request for the path \<^verbatim>\<open>/prompts/search\<close>, whatever its query parameters, is
  handed to the get-by-id endpoint with \<^verbatim>\<open>prompt_id = "search"\<close>; the answer is 404 when no
  prompt has that id; and no request at all is ever handed to the search endpoint.
\<close>

theorem search_path_is_shadowed:
  assumes "r_method req = GET" and "r_path req = ''/prompts/search''"
  shows "dispatch req = Dispatched GetPromptEndpoint [(''prompt_id'', ''search'')] \<and>
         app be uuid req w = get_prompt be ''search'' w \<and>
         (''search'' \<notin> set (map p_id (prompt_nodes (store w))) \<longrightarrow>
            fst (app (neo4j eng NoFault) uuid req w) =
              Inl (HTTPException 404 ''Prompt not found'') \<and>
            status_code (fst (app (neo4j eng NoFault) uuid req w)) = 404) \<and>
         (\<forall>r ps. dispatch r \<noteq> Dispatched SearchPromptsEndpoint ps)"
proof -
  have d: "dispatch req = Dispatched GetPromptEndpoint [(''prompt_id'', ''search'')]"
    using assms by (rule dispatch_search_path)
  have a: "app be' uuid req w = get_prompt be' ''search'' w" for be'
    by (simp add: app_def d get_prompt_route_def)
  show ?thesis
    by (simp add: d a get_prompt_absent status_code_def search_endpoint_unreachable)
qed

theorem search_path_is_shadowed_witness:
  "dispatch \<lparr>r_method = GET, r_path = ''/prompts/search'', r_query = [(''q'', ''robot'')],
             r_body = None\<rparr>
     = Dispatched GetPromptEndpoint [(''prompt_id'', ''search'')] \<and>
   fst (app (neo4j sample_engine NoFault) ''id-1''
          \<lparr>r_method = GET, r_path = ''/prompts/search'', r_query = [(''q'', ''robot'')],
           r_body = None\<rparr> empty_world)
     = Inl (HTTPException 404 ''Prompt not found'')"
proof -
  let ?req = "\<lparr>r_method = GET, r_path = ''/prompts/search'', r_query = [(''q'', ''robot'')],
               r_body = None\<rparr>"
  have m: "r_method ?req = GET" and p: "r_path ?req = ''/prompts/search''"
    by simp_all
  have n: "''search'' \<notin> set (map p_id (prompt_nodes (store empty_world)))"
    by (simp add: empty_world_def empty_graph_def)
  from search_path_is_shadowed
         [OF m p, where w = empty_world and eng = sample_engine and uuid = "''id-1''"] n
  show ?thesis by blast
qed

section \<open>Reading a prompt\<close>

text \<open>
  C9. For an id that no Prompt node carries, the read transaction function returns the
  absent value \<open>None\<close> and raises nothing; the endpoint turns it into a 404 response; the
  store is left as it was. In a store built by create calls from the empty store, this is
  so for every id that was not drawn for one of these calls.
\<close>

theorem get_unknown_id_not_found:
  "(prompt_id \<notin> set (map p_id (prompt_nodes (store w))) \<longrightarrow>
      fst (tx_get_prompt (neo4j eng NoFault) prompt_id w) = Inr None \<and>
      fst (get_prompt (neo4j eng NoFault) prompt_id w) =
        Inl (HTTPException 404 ''Prompt not found'') \<and>
      status_code (fst (get_prompt (neo4j eng NoFault) prompt_id w)) = 404 \<and>
      store (snd (get_prompt (neo4j eng NoFault) prompt_id w)) = store w) \<and>
   (prompt_id \<notin> set (map (\<lambda>c. fst (snd c)) cs) \<longrightarrow>
      fst (tx_get_prompt (neo4j eng NoFault) prompt_id (create_all eng cs empty_world)) =
        Inr None \<and>
      fst (get_prompt (neo4j eng NoFault) prompt_id (create_all eng cs empty_world)) =
        Inl (HTTPException 404 ''Prompt not found''))"
proof -
  have "prompt_id \<notin> set (map p_id (prompt_nodes (store (create_all eng cs empty_world))))"
    if "prompt_id \<notin> set (map (\<lambda>c. fst (snd c)) cs)"
    using that prompt_ids_create_all [of eng cs empty_world]
    by (auto simp add: empty_world_def empty_graph_def)
  then show ?thesis
    by (simp add: tx_get_prompt_absent get_prompt_absent status_code_def)
qed

theorem get_unknown_id_not_found_witness:
  "fst (tx_get_prompt (neo4j sample_engine NoFault) ''no-such-id'' sample_world) = Inr None \<and>
   fst (get_prompt (neo4j sample_engine NoFault) ''no-such-id'' sample_world) =
     Inl (HTTPException 404 ''Prompt not found'') \<and>
   fst (get_prompt (neo4j sample_engine NoFault) ''id-2''
          (create_all sample_engine
             [(NoFault, ''id-1'',
               \<lparr>pc_text = ''a'', pc_source = None, pc_tags = Some [''robot'']\<rparr>)]
             empty_world)) =
     Inl (HTTPException 404 ''Prompt not found'')"
proof -
  have a: "''no-such-id'' \<notin> set (map p_id (prompt_nodes (store sample_world)))"
    by (simp add: sample_world_def sample_graph_def)
  have b: "''id-2'' \<notin> set (map (\<lambda>c. fst (snd c))
             [(NoFault, ''id-1'',
               \<lparr>pc_text = ''a'', pc_source = None, pc_tags = Some [''robot'']\<rparr>)])"
    by simp
  from get_unknown_id_not_found
         [where prompt_id = "''no-such-id''" and w = sample_world and eng = sample_engine] a
       get_unknown_id_not_found
         [where prompt_id = "''id-2''" and eng = sample_engine
            and cs = "[(NoFault, ''id-1'',
               \<lparr>pc_text = ''a'', pc_source = None, pc_tags = Some [''robot'']\<rparr>)]"] b
  show ?thesis by blast
qed

section \<open>Creating a prompt\<close>

text \<open>
  C10. When the create statement yields no record (and the commit goes through), the
  transaction function returns \<open>None\<close> without raising, and the endpoint answers with
  success and an \<^verbatim>\<open>id\<close> that is null.
\<close>

theorem create_no_record_null_id:
  assumes "run be (CreatePromptQuery uuid (pc_text prompt) (pc_source prompt)
              (tags_or_empty (pc_tags prompt))) (store w) = (Inr [], g)"
      and "commit be g = None"
  shows "fst (tx_create_prompt be uuid (pc_text prompt) (pc_source prompt)
              (tags_or_empty (pc_tags prompt)) w) = Inr Null \<and>
         fst (create_prompt be uuid prompt w) = Inr (CreateResponse Null) \<and>
         status_code (fst (create_prompt be uuid prompt w)) = 200"
  using assms
  by (simp add: tx_create_prompt_def tx_run_def single_def create_prompt_def with_session_def
      write_transaction_def status_code_def Let_def)

theorem create_no_record_null_id_witness:
  "fst (create_prompt silent_backend ''id-1''
          \<lparr>pc_text = ''Write a story'', pc_source = None, pc_tags = Some [''story'']\<rparr>
          empty_world) = Inr (CreateResponse Null)"
  using create_no_record_null_id
    [where be = silent_backend and uuid = "''id-1''"
       and prompt = "\<lparr>pc_text = ''Write a story'', pc_source = None,
                       pc_tags = Some [''story'']\<rparr>"
       and w = empty_world and g = empty_graph]
  by (simp add: silent_backend_def empty_world_def tags_or_empty_def)

text \<open>
  C6. A create call does all its writes in one managed transaction and catches nothing.
  Whatever fault the store has, the call ends in one of two ways. Either it returns the
  id, and the committed graph holds all of the attempt together: the new Prompt node with
  the given id, text and source, a Tag node for every name of the tag list (the names of
  the Tag nodes are the old ones and those of the list, the old nodes are kept, and on a
  store that satisfies the invariant no name is doubled), and as new edges exactly those
  from the new Prompt node to the Tag nodes named in the list. Or it raises the store's
  failure, and the committed graph is the one from before the call, so that every later
  read answers as it would have before. When the fault strikes (inside the statement,
  however many writes were already done, or at the commit), the call raises; without a
  fault it returns. When the statement fails after the node and some of the tags were
  written, these writes are in the graph of the transaction and in no committed graph.
\<close>

theorem create_prompt_atomic:
  "((fst (create_prompt (neo4j eng flt) uuid prompt w) = Inr (CreateResponse (Str uuid)) \<and>
     store (snd (create_prompt (neo4j eng flt) uuid prompt w)) =
       create_prompt_writes uuid (pc_text prompt) (pc_source prompt)
         (tags_or_empty (pc_tags prompt)) (store w) \<and>
     prompt_nodes (store (snd (create_prompt (neo4j eng flt) uuid prompt w))) =
       prompt_nodes (store w) @
         [\<lparr>p_ident = next_ident (store w), p_id = uuid, p_text = pc_text prompt,
           p_source = pc_source prompt\<rparr>] \<and>
     set (tag_nodes (store w)) \<subseteq>
       set (tag_nodes (store (snd (create_prompt (neo4j eng flt) uuid prompt w)))) \<and>
     set (map t_name (tag_nodes (store (snd (create_prompt (neo4j eng flt) uuid prompt w))))) =
       set (map t_name (tag_nodes (store w))) \<union> set (tags_or_empty (pc_tags prompt)) \<and>
     set (has_tag (store (snd (create_prompt (neo4j eng flt) uuid prompt w)))) =
       set (has_tag (store w)) \<union>
       (\<lambda>t. (next_ident (store w), t_ident t)) `
         {t \<in> set (tag_nodes (store (snd (create_prompt (neo4j eng flt) uuid prompt w)))).
            t_name t \<in> set (tags_or_empty (pc_tags prompt))} \<and>
     (wf_graph (store w) \<longrightarrow>
        wf_graph (store (snd (create_prompt (neo4j eng flt) uuid prompt w))) \<and>
        distinct (map t_name
          (tag_nodes (store (snd (create_prompt (neo4j eng flt) uuid prompt w))))) \<and>
        set (collect_tag_names (next_ident (store w))
               (store (snd (create_prompt (neo4j eng flt) uuid prompt w)))) =
          set (tags_or_empty (pc_tags prompt))))
    \<or>
    (fst (create_prompt (neo4j eng flt) uuid prompt w) = Inl store_failure \<and>
     store (snd (create_prompt (neo4j eng flt) uuid prompt w)) = store w \<and>
     (\<forall>be i. fst (get_prompt be i (snd (create_prompt (neo4j eng flt) uuid prompt w))) =
              fst (get_prompt be i w)) \<and>
     (\<forall>be q. fst (search_prompts be q (snd (create_prompt (neo4j eng flt) uuid prompt w))) =
              fst (search_prompts be q w))))
   \<and>
   (writes_done flt (Suc (length (tags_or_empty (pc_tags prompt)))) \<noteq> None \<or> flt = FailCommit
      \<longrightarrow> fst (create_prompt (neo4j eng flt) uuid prompt w) = Inl store_failure)
   \<and>
   (flt = NoFault \<longrightarrow>
      fst (create_prompt (neo4j eng flt) uuid prompt w) = Inr (CreateResponse (Str uuid)))
   \<and>
   (\<forall>k. flt = FailAfter (Suc k) \<and> k < length (tags_or_empty (pc_tags prompt)) \<longrightarrow>
      store (snd (tx_create_prompt (neo4j eng flt) uuid (pc_text prompt) (pc_source prompt)
                    (tags_or_empty (pc_tags prompt)) w)) =
        create_prompt_writes uuid (pc_text prompt) (pc_source prompt)
          (take k (tags_or_empty (pc_tags prompt))) (store w) \<and>
      store (snd (create_prompt (neo4j eng flt) uuid prompt w)) = store w)"
proof -
  let ?w' = "snd (create_prompt (neo4j eng flt) uuid prompt w)"
  let ?tags = "tags_or_empty (pc_tags prompt)"
  let ?g' = "create_prompt_writes uuid (pc_text prompt) (pc_source prompt) ?tags (store w)"
  have reads: "(\<forall>be i. fst (get_prompt be i ?w') = fst (get_prompt be i w)) \<and>
               (\<forall>be q. fst (search_prompts be q ?w') = fst (search_prompts be q w))"
    if "store ?w' = store w"
    using that get_prompt_store_only search_prompts_store_only by blast
  have content: "prompt_nodes (store ?w') =
       prompt_nodes (store w) @
         [\<lparr>p_ident = next_ident (store w), p_id = uuid, p_text = pc_text prompt,
           p_source = pc_source prompt\<rparr>] \<and>
     set (tag_nodes (store w)) \<subseteq> set (tag_nodes (store ?w')) \<and>
     set (map t_name (tag_nodes (store ?w'))) =
       set (map t_name (tag_nodes (store w))) \<union> set ?tags \<and>
     set (has_tag (store ?w')) =
       set (has_tag (store w)) \<union>
       (\<lambda>t. (next_ident (store w), t_ident t)) `
         {t \<in> set (tag_nodes (store ?w')). t_name t \<in> set ?tags} \<and>
     (wf_graph (store w) \<longrightarrow>
        wf_graph (store ?w') \<and> distinct (map t_name (tag_nodes (store ?w'))) \<and>
        set (collect_tag_names (next_ident (store w)) (store ?w')) = set ?tags)"
    if st: "store ?w' = ?g'"
  proof -
    have "wf_graph ?g' \<and> distinct (map t_name (tag_nodes ?g')) \<and>
          set (collect_tag_names (next_ident (store w)) ?g') = set ?tags"
      if wf: "wf_graph (store w)"
      using create_prompt_writes_wf(1)
              [OF wf, where i = uuid and t = "pc_text prompt" and s = "pc_source prompt"
                 and tags = ?tags]
            create_prompt_writes_wf(3)
              [OF wf, where p' = "next_ident (store w)" and i = uuid and t = "pc_text prompt"
                 and s = "pc_source prompt" and tags = ?tags]
      by (simp add: wf_tag_facts(6))
    then have w3: "wf_graph (store w) \<longrightarrow>
        wf_graph ?g' \<and> distinct (map t_name (tag_nodes ?g')) \<and>
        set (collect_tag_names (next_ident (store w)) ?g') = set ?tags"
      by (rule impI)
    note c = create_prompt_writes_content
              [where i = uuid and t = "pc_text prompt" and s = "pc_source prompt"
                 and tags = ?tags and g = "store w"]
    show ?thesis
      unfolding st
      by (rule conjI [OF c(1) conjI [OF c(2) conjI [OF c(3) conjI [OF c(4) w3]]]])
  qed
  have ok: "fst (create_prompt (neo4j eng flt) uuid prompt w) = Inr (CreateResponse (Str uuid))"
    if "flt = NoFault"
    using that by (simp add: create_prompt_ok)
  have part: "store (snd (tx_create_prompt (neo4j eng flt) uuid (pc_text prompt)
                    (pc_source prompt) ?tags w)) =
        create_prompt_writes uuid (pc_text prompt) (pc_source prompt) (take k ?tags) (store w) \<and>
      store ?w' = store w"
    if "flt = FailAfter (Suc k)" and "k < length ?tags" for k
  proof -
    have "writes_done flt (Suc (length ?tags)) \<noteq> None"
      using that by (simp add: writes_done_def)
    with create_prompt_fault [of flt prompt eng uuid w] create_prompt_cases [of eng flt uuid prompt w]
    have "store ?w' = store w"
      by auto
    then show ?thesis
      using that by (simp add: tx_create_prompt_partial)
  qed
  have f: "writes_done flt (Suc (length ?tags)) \<noteq> None \<or> flt = FailCommit \<longrightarrow>
           fst (create_prompt (neo4j eng flt) uuid prompt w) = Inl store_failure"
    by (rule impI) (rule create_prompt_fault)
  have o: "flt = NoFault \<longrightarrow>
           fst (create_prompt (neo4j eng flt) uuid prompt w) = Inr (CreateResponse (Str uuid))"
    by (rule impI) (rule ok)
  have p: "\<forall>k. flt = FailAfter (Suc k) \<and> k < length ?tags \<longrightarrow>
      store (snd (tx_create_prompt (neo4j eng flt) uuid (pc_text prompt) (pc_source prompt)
                    ?tags w)) =
        create_prompt_writes uuid (pc_text prompt) (pc_source prompt) (take k ?tags) (store w) \<and>
      store ?w' = store w"
  proof (intro allI impI)
    fix k
    assume "flt = FailAfter (Suc k) \<and> k < length ?tags"
    then have "flt = FailAfter (Suc k)" and "k < length ?tags"
      by simp_all
    then show "store (snd (tx_create_prompt (neo4j eng flt) uuid (pc_text prompt)
                    (pc_source prompt) ?tags w)) =
        create_prompt_writes uuid (pc_text prompt) (pc_source prompt) (take k ?tags) (store w) \<and>
      store ?w' = store w"
      by (rule part)
  qed
  from create_prompt_cases [of eng flt uuid prompt w]
  show ?thesis
  proof
    assume a: "fst (create_prompt (neo4j eng flt) uuid prompt w) =
                 Inr (CreateResponse (Str uuid)) \<and> store ?w' = ?g'"
    note s = conjI [OF conjunct1 [OF a] conjI [OF conjunct2 [OF a]
                 content [OF conjunct2 [OF a]]]]
    show ?thesis
      by (rule conjI [OF disjI1 [OF s] conjI [OF f conjI [OF o p]]])
  next
    assume a: "fst (create_prompt (neo4j eng flt) uuid prompt w) = Inl store_failure \<and>
               store ?w' = store w"
    note s = conjI [OF conjunct1 [OF a] conjI [OF conjunct2 [OF a]
                 reads [OF conjunct2 [OF a]]]]
    show ?thesis
      by (rule conjI [OF disjI2 [OF s] conjI [OF f conjI [OF o p]]])
  qed
qed

theorem create_prompt_atomic_witness:
  "fst (create_prompt (neo4j sample_engine (FailAfter 2)) ''id-1''
          \<lparr>pc_text = ''t'', pc_source = None, pc_tags = Some [''story'', ''robot'']\<rparr>
          empty_world) = Inl store_failure \<and>
   store (snd (create_prompt (neo4j sample_engine (FailAfter 2)) ''id-1''
          \<lparr>pc_text = ''t'', pc_source = None, pc_tags = Some [''story'', ''robot'']\<rparr>
          empty_world)) = empty_graph \<and>
   store (snd (tx_create_prompt (neo4j sample_engine (FailAfter 2)) ''id-1'' ''t'' None
          [''story'', ''robot''] empty_world)) =
     \<lparr>prompt_nodes = [\<lparr>p_ident = 0, p_id = ''id-1'', p_text = ''t'', p_source = None\<rparr>],
      tag_nodes = [\<lparr>t_ident = 1, t_name = ''story''\<rparr>], has_tag = [(0, 1)],
      next_ident = 2, fulltext_index = False\<rparr> \<and>
   prompt_nodes (store (snd (create_prompt (neo4j sample_engine NoFault) ''id-1''
          \<lparr>pc_text = ''t'', pc_source = None, pc_tags = Some [''story'', ''robot'']\<rparr>
          empty_world))) =
     [\<lparr>p_ident = 0, p_id = ''id-1'', p_text = ''t'', p_source = None\<rparr>] \<and>
   set (map t_name (tag_nodes (store (snd (create_prompt (neo4j sample_engine NoFault) ''id-1''
          \<lparr>pc_text = ''t'', pc_source = None, pc_tags = Some [''story'', ''robot'']\<rparr>
          empty_world))))) = {''story'', ''robot''}"
proof -
  let ?p = "\<lparr>pc_text = ''t'', pc_source = None, pc_tags = Some [''story'', ''robot'']\<rparr>"
  let ?wf = "snd (create_prompt (neo4j sample_engine (FailAfter 2)) ''id-1'' ?p empty_world)"
  let ?wn = "snd (create_prompt (neo4j sample_engine NoFault) ''id-1'' ?p empty_world)"
  note t = create_prompt_atomic
         [where eng = sample_engine and flt = "FailAfter 2" and uuid = "''id-1''"
            and prompt = ?p and w = empty_world]
  note u = create_prompt_atomic
         [where eng = sample_engine and flt = NoFault and uuid = "''id-1''"
            and prompt = ?p and w = empty_world]
  have h: "writes_done (FailAfter 2) (Suc (length (tags_or_empty (pc_tags ?p)))) \<noteq> None \<or>
           FailAfter 2 = FailCommit"
    by (simp add: writes_done_def)
  have a: "fst (create_prompt (neo4j sample_engine (FailAfter 2)) ''id-1'' ?p empty_world) =
             Inl store_failure"
    by (rule mp [OF t [THEN conjunct2, THEN conjunct1] h])
  have k: "FailAfter 2 = FailAfter (Suc 1) \<and> 1 < length (tags_or_empty (pc_tags ?p))"
    by simp
  note b = mp [OF spec [OF t [THEN conjunct2, THEN conjunct2, THEN conjunct2], of 1] k]
  from b have b1: "store ?wf = empty_graph"
    by (simp add: empty_world_def)
  from b have b2: "store (snd (tx_create_prompt (neo4j sample_engine (FailAfter 2)) ''id-1''
          ''t'' None [''story'', ''robot''] empty_world)) =
     \<lparr>prompt_nodes = [\<lparr>p_ident = 0, p_id = ''id-1'', p_text = ''t'', p_source = None\<rparr>],
      tag_nodes = [\<lparr>t_ident = 1, t_name = ''story''\<rparr>], has_tag = [(0, 1)],
      next_ident = 2, fulltext_index = False\<rparr>"
    by (simp add: create_prompt_writes_def create_prompt_node_def foreach_tag_def
        merge_tag_node_def merge_edge_def empty_world_def empty_graph_def Let_def)
  have o: "fst (create_prompt (neo4j sample_engine NoFault) ''id-1'' ?p empty_world) =
             Inr (CreateResponse (Str ''id-1''))"
    by (rule mp [OF u [THEN conjunct2, THEN conjunct2, THEN conjunct1] refl])
  have c: "prompt_nodes (store ?wn) =
             prompt_nodes (store empty_world) @
               [\<lparr>p_ident = next_ident (store empty_world), p_id = ''id-1'',
                 p_text = pc_text ?p, p_source = pc_source ?p\<rparr>] \<and>
           set (map t_name (tag_nodes (store ?wn))) =
             set (map t_name (tag_nodes (store empty_world))) \<union>
             set (tags_or_empty (pc_tags ?p))"
    apply (rule disjE [OF u [THEN conjunct1]])
    subgoal premises s
      using s [THEN conjunct2, THEN conjunct2, THEN conjunct1]
        s [THEN conjunct2, THEN conjunct2, THEN conjunct2, THEN conjunct2, THEN conjunct1]
      by (rule conjI)
    subgoal premises s
      using s [THEN conjunct1] o by simp
    done
  from c have c1: "prompt_nodes (store ?wn) =
                     [\<lparr>p_ident = 0, p_id = ''id-1'', p_text = ''t'', p_source = None\<rparr>]"
    and c2: "set (map t_name (tag_nodes (store ?wn))) = {''story'', ''robot''}"
    by (simp_all add: empty_world_def empty_graph_def insert_commute)
  from a b1 b2 c1 c2 show ?thesis
    by (intro conjI)
qed

section \<open>Validation\<close>

text \<open>
  C5, as the code has it. Validation checks that the required input is there, not that it
  is non-empty. A create request without a body or without \<^verbatim>\<open>text\<close> is answered with 422
  and the world is untouched: no session, no statement, no commit, for any backend. The
  search route does the same for a missing \<^verbatim>\<open>q\<close>. A \<^verbatim>\<open>text\<close> or a \<^verbatim>\<open>q\<close> that is present,
  empty or not, passes validation and is handed to the endpoint function, which does go
  to the store: the create endpoint acquires a session and runs the create statement, the
  search endpoint acquires a session and runs the index statement.
\<close>

theorem missing_input_rejected_before_store:
  "(r_method req = POST \<and> r_path req = ''/prompts'' \<and>
      (case r_body req of None \<Rightarrow> True | Some b \<Rightarrow> b_text b = None)
      \<longrightarrow> app be uuid req w = (Inl RequestValidationError, w)) \<and>
   (query_param req ''q'' = None
      \<longrightarrow> search_prompts_route be req w = (Inl RequestValidationError, w)) \<and>
   status_code (Inl RequestValidationError) = 422 \<and>
   (\<forall>b t. r_method req = POST \<and> r_path req = ''/prompts'' \<and> r_body req = Some b \<and>
           b_text b = Some t
      \<longrightarrow> app be uuid req w =
            create_prompt be uuid \<lparr>pc_text = t, pc_source = b_source b, pc_tags = b_tags b\<rparr> w) \<and>
   (\<forall>q. query_param req ''q'' = Some q
      \<longrightarrow> search_prompts_route be req w = search_prompts be q w) \<and>
   (\<forall>b t. r_method req = POST \<and> r_path req = ''/prompts'' \<and> r_body req = Some b \<and>
           b_text b = Some t
      \<longrightarrow> (\<exists>ev. trace (snd (app be uuid req w)) =
                  trace w @ [SessionAcquired,
                    Ran (CreatePromptQuery uuid t (b_source b) (tags_or_empty (b_tags b))),
                    ev, SessionClosed])) \<and>
   (\<forall>q. query_param req ''q'' = Some q
      \<longrightarrow> (\<exists>rest. trace (snd (search_prompts_route be req w)) =
                  trace w @ SessionAcquired # Ran CreateIndexQuery # rest))"
proof -
  have valid: "app be uuid req w =
            create_prompt be uuid \<lparr>pc_text = t, pc_source = b_source b, pc_tags = b_tags b\<rparr> w"
    if "r_method req = POST \<and> r_path req = ''/prompts'' \<and> r_body req = Some b \<and>
        b_text b = Some t" for b t
    using that by (simp add: app_post_prompts create_prompt_route_def validate_body_def)
  have present: "search_prompts_route be req w = search_prompts be q w"
    if "query_param req ''q'' = Some q" for q
    using that by (simp add: search_prompts_route_def)
  have a: "r_method req = POST \<and> r_path req = ''/prompts'' \<and>
      (case r_body req of None \<Rightarrow> True | Some b \<Rightarrow> b_text b = None)
      \<longrightarrow> app be uuid req w = (Inl RequestValidationError, w)"
    by (auto simp add: app_post_prompts create_prompt_route_def validate_body_def
        split: option.splits)
  have b: "query_param req ''q'' = None
      \<longrightarrow> search_prompts_route be req w = (Inl RequestValidationError, w)"
    by (simp add: search_prompts_route_def)
  have c: "status_code (Inl RequestValidationError) = 422"
    by (simp add: status_code_def)
  have d: "\<forall>b t. r_method req = POST \<and> r_path req = ''/prompts'' \<and> r_body req = Some b \<and>
           b_text b = Some t
      \<longrightarrow> app be uuid req w =
            create_prompt be uuid \<lparr>pc_text = t, pc_source = b_source b, pc_tags = b_tags b\<rparr> w"
    using valid by blast
  have e: "\<forall>q. query_param req ''q'' = Some q
      \<longrightarrow> search_prompts_route be req w = search_prompts be q w"
    using present by blast
  have f: "\<forall>b t. r_method req = POST \<and> r_path req = ''/prompts'' \<and> r_body req = Some b \<and>
           b_text b = Some t
      \<longrightarrow> (\<exists>ev. trace (snd (app be uuid req w)) =
                  trace w @ [SessionAcquired,
                    Ran (CreatePromptQuery uuid t (b_source b) (tags_or_empty (b_tags b))),
                    ev, SessionClosed])"
  proof (intro allI impI)
    fix b t
    assume h: "r_method req = POST \<and> r_path req = ''/prompts'' \<and> r_body req = Some b \<and>
               b_text b = Some t"
    from create_prompt_trace
           [of be uuid "\<lparr>pc_text = t, pc_source = b_source b, pc_tags = b_tags b\<rparr>" w]
    show "\<exists>ev. trace (snd (app be uuid req w)) =
                  trace w @ [SessionAcquired,
                    Ran (CreatePromptQuery uuid t (b_source b) (tags_or_empty (b_tags b))),
                    ev, SessionClosed]"
      by (simp add: valid [OF h])
  qed
  have g: "\<forall>q. query_param req ''q'' = Some q
      \<longrightarrow> (\<exists>rest. trace (snd (search_prompts_route be req w)) =
                  trace w @ SessionAcquired # Ran CreateIndexQuery # rest)"
  proof (intro allI impI)
    fix q
    assume h: "query_param req ''q'' = Some q"
    from search_prompts_trace [of be q w]
    show "\<exists>rest. trace (snd (search_prompts_route be req w)) =
                  trace w @ SessionAcquired # Ran CreateIndexQuery # rest"
      by (simp add: present [OF h])
  qed
  show ?thesis
    by (rule conjI [OF a conjI [OF b conjI [OF c conjI [OF d conjI [OF e conjI [OF f g]]]]]])
qed

theorem missing_input_rejected_before_store_witness:
  "app (neo4j sample_engine NoFault) ''id-1''
     \<lparr>r_method = POST, r_path = ''/prompts'', r_query = [],
      r_body = Some \<lparr>b_text = None, b_source = Some ''user'', b_tags = None\<rparr>\<rparr> empty_world
     = (Inl RequestValidationError, empty_world) \<and>
   search_prompts_route (neo4j sample_engine NoFault)
     \<lparr>r_method = GET, r_path = ''/prompts/search'', r_query = [], r_body = None\<rparr> empty_world
     = (Inl RequestValidationError, empty_world)"
proof -
  let ?r1 = "\<lparr>r_method = POST, r_path = ''/prompts'', r_query = [],
                r_body = Some \<lparr>b_text = None, b_source = Some ''user'', b_tags = None\<rparr>\<rparr>"
  let ?r2 = "\<lparr>r_method = GET, r_path = ''/prompts/search'', r_query = [], r_body = None\<rparr>"
  have h1: "r_method ?r1 = POST \<and> r_path ?r1 = ''/prompts'' \<and>
            (case r_body ?r1 of None \<Rightarrow> True | Some b \<Rightarrow> b_text b = None)"
    by simp
  have h2: "query_param ?r2 ''q'' = None"
    by (simp add: query_param_def)
  note t1 = missing_input_rejected_before_store
          [where be = "neo4j sample_engine NoFault" and uuid = "''id-1''" and w = empty_world
             and req = ?r1, THEN conjunct1]
  note t2 = missing_input_rejected_before_store
          [where be = "neo4j sample_engine NoFault" and uuid = "''id-1''" and w = empty_world
             and req = ?r2, THEN conjunct2, THEN conjunct1]
  show ?thesis
    by (rule conjI [OF mp [OF t1 h1] mp [OF t2 h2]])
qed

text \<open>
  The claim as the specification words it fails: a create request whose \<^verbatim>\<open>text\<close> is the
  empty string is not rejected. It opens a session, runs the create statement, commits,
  and a Prompt node with empty text is in the store.
\<close>

theorem empty_text_is_stored:
  "app (neo4j sample_engine NoFault) ''id-1''
     \<lparr>r_method = POST, r_path = ''/prompts'', r_query = [],
      r_body = Some \<lparr>b_text = Some [], b_source = None, b_tags = None\<rparr>\<rparr> empty_world
   = (Inr (CreateResponse (Str ''id-1'')),
      \<lparr>store = \<lparr>prompt_nodes = [\<lparr>p_ident = 0, p_id = ''id-1'', p_text = [], p_source = None\<rparr>],
                 tag_nodes = [], has_tag = [], next_ident = 1, fulltext_index = False\<rparr>,
       trace = [SessionAcquired, Ran (CreatePromptQuery ''id-1'' [] None []), Committed,
                SessionClosed]\<rparr>)"
  by (simp add: app_post_prompts create_prompt_route_def validate_body_def create_prompt_ok
      create_prompt_writes_def create_prompt_node_def empty_world_def empty_graph_def)

section \<open>Searching\<close>

text \<open>
  C3. Whenever a search returns, it returns at most ten results, as many as there are
  matches when these are fewer, and their scores are the ten highest scores among all the
  matches, in non-increasing order. A search with a query that the engine accepts, on a
  store without fault, does return.
\<close>

theorem search_capped_and_ranked:
  "(\<forall>rs. fst (search_prompts (neo4j eng flt) q w) = Inr (SearchResponse rs) \<longrightarrow>
      length rs \<le> 10 \<and>
      length rs = min 10 (length (query_nodes eng q (store w))) \<and>
      (\<exists>ss. map s_score rs = map Float ss \<and>
            sorted_wrt (\<lambda>a b. b \<le> a) ss \<and>
            ss = take 10 (rev (sort (map snd (query_nodes eng q (store w))))))) \<and>
   (accepts eng q \<longrightarrow>
      (\<exists>rs. fst (search_prompts (neo4j eng NoFault) q w) = Inr (SearchResponse rs)))"
proof -
  let ?hs = "query_nodes eng q (store w)"
  let ?top = "take 10 (sort_key (\<lambda>h. - snd h) ?hs)"
  let ?ss = "take 10 (rev (sort (map snd ?hs)))"
  have scores: "map s_score (map hit_dict ?top) = map Float ?ss"
  proof -
    have "map s_score (map hit_dict ?top) = map Float (map snd ?top)"
      by (simp add: hit_dict_def comp_def)
    also have "map snd ?top = ?ss"
      by (simp only: take_map [symmetric] scores_sort_key)
    finally show ?thesis .
  qed
  have "sorted_wrt (\<lambda>a b. b \<le> a) (rev (sort (map snd ?hs)))"
    by (simp add: sorted_wrt_rev)
  then have desc: "sorted_wrt (\<lambda>a b. b \<le> a) ?ss"
    by (rule sorted_wrt_take)
  have "length rs \<le> 10 \<and> length rs = min 10 (length ?hs) \<and>
        (\<exists>ss. map s_score rs = map Float ss \<and> sorted_wrt (\<lambda>a b. b \<le> a) ss \<and> ss = ?ss)"
    if "fst (search_prompts (neo4j eng flt) q w) = Inr (SearchResponse rs)" for rs
  proof -
    from that have rs: "rs = map hit_dict ?top"
      by (rule search_prompts_result)
    show ?thesis
      using scores desc by (simp add: rs min.commute)
  qed
  moreover have "\<exists>rs. fst (search_prompts (neo4j eng NoFault) q w) = Inr (SearchResponse rs)"
    if "accepts eng q"
    using that by (simp add: search_prompts_ok)
  ultimately show ?thesis by blast
qed

theorem search_capped_and_ranked_witness:
  "\<exists>rs. fst (search_prompts (neo4j sample_engine NoFault) ''a'' sample_world) =
          Inr (SearchResponse rs) \<and>
        length rs = 10 \<and>
        map s_score rs = map Float [11, 10, 9, 8, 7, 6, 5, 4, 3, 2]"
proof -
  have matches: "map snd (query_nodes sample_engine ''a'' (store sample_world)) =
                 [3, 1, 2, 5, 4, 7, 6, 9, 8, 11, 10]"
    by (simp add: query_nodes_def sample_engine_def sample_world_def sample_graph_def)
  have acc: "accepts sample_engine ''a''"
    by (simp add: sample_engine_def)
  note t = search_capped_and_ranked
             [where eng = sample_engine and flt = NoFault and q = "''a''" and w = sample_world]
  from t acc obtain rs where
    rs: "fst (search_prompts (neo4j sample_engine NoFault) ''a'' sample_world) =
           Inr (SearchResponse rs)"
    by blast
  with t have "length rs = min 10 (length (query_nodes sample_engine ''a'' (store sample_world)))"
    and "map s_score rs =
         map Float (take 10 (rev (sort (map snd
           (query_nodes sample_engine ''a'' (store sample_world))))))"
    by blast+
  moreover have "length (query_nodes sample_engine ''a'' (store sample_world)) = 11"
    using arg_cong [OF matches, of length] by simp
  ultimately have "length rs = 10 \<and> map s_score rs = map Float [11, 10, 9, 8, 7, 6, 5, 4, 3, 2]"
    by (simp add: matches)
  with rs show ?thesis by blast
qed

text \<open>
  C4, as the code has it. The search function hands the query string to the store as it
  is; it has no case of its own for the empty string. When the engine accepts the query
  and finds no match, the result is the empty list and nothing is raised. When the engine
  rejects the query, its error goes through to the caller.
\<close>

theorem search_without_match_is_empty:
  "(accepts eng q \<and> query_nodes eng q (store w) = [] \<longrightarrow>
      fst (search_prompts (neo4j eng NoFault) q w) = Inr (SearchResponse [])) \<and>
   (\<not> accepts eng q \<longrightarrow>
      fst (search_prompts (neo4j eng NoFault) q w) = Inl (Neo4jError ''cannot parse query''))"
  by (simp add: search_prompts_ok search_rejected)

theorem search_without_match_is_empty_witness:
  "fst (search_prompts (neo4j sample_engine NoFault) ''robot'' sample_world) =
     Inr (SearchResponse [])"
proof -
  have "accepts sample_engine ''robot'' \<and>
        query_nodes sample_engine ''robot'' (store sample_world) = []"
    by (simp add: query_nodes_def sample_engine_def sample_world_def sample_graph_def)
  with search_without_match_is_empty
         [where eng = sample_engine and q = "''robot''" and w = sample_world]
  show ?thesis by blast
qed

text \<open>
  The claim as the specification words it fails for the empty string: the query parser
  of the store's full-text procedure rejects an empty query, as the sample engine does, and
  the search then raises instead of returning an empty list.
\<close>

theorem empty_query_raises:
  "fst (search_prompts (neo4j sample_engine NoFault) [] empty_world) =
     Inl (Neo4jError ''cannot parse query'')"
  by (simp add: search_rejected sample_engine_def)

text \<open>
  C8. Every run of the search function asks for the index first and queries second, on
  any backend. On the store, asking for an index that exists changes nothing and raises
  nothing, so a search never fails for want of the index, whether the index was there
  before or not; and a second search right after the first gives the same answer and
  leaves the store as the first left it.
\<close>

theorem search_bootstraps_index:
  "(trace (snd (tx_search_prompts be q w)) = trace w @ [Ran CreateIndexQuery] \<or>
    trace (snd (tx_search_prompts be q w)) =
      trace w @ [Ran CreateIndexQuery, Ran (SearchQuery q)]) \<and>
   fst (search_prompts (neo4j eng flt) q w) \<noteq> Inl (Neo4jError ''no such fulltext index'') \<and>
   (accepts eng q \<longrightarrow>
      (\<exists>rs. fst (search_prompts (neo4j eng NoFault) q w) = Inr (SearchResponse rs) \<and>
            fst (search_prompts (neo4j eng NoFault) q
                   (snd (search_prompts (neo4j eng NoFault) q w))) = Inr (SearchResponse rs)) \<and>
      fulltext_index (store (snd (search_prompts (neo4j eng NoFault) q w))) \<and>
      store (snd (search_prompts (neo4j eng NoFault) q
                    (snd (search_prompts (neo4j eng NoFault) q w)))) =
        store (snd (search_prompts (neo4j eng NoFault) q w)))"
  using tx_search_trace [of be q w] search_never_misses_index [of eng flt q w]
  by (simp add: search_prompts_ok query_nodes_def)

theorem search_bootstraps_index_witness:
  "\<not> fulltext_index (store sample_world) \<and>
   fulltext_index (store (snd (search_prompts (neo4j sample_engine NoFault) ''a'' sample_world))) \<and>
   (\<exists>rs. fst (search_prompts (neo4j sample_engine NoFault) ''a'' sample_world) =
            Inr (SearchResponse rs) \<and>
          fst (search_prompts (neo4j sample_engine NoFault) ''a''
                 (snd (search_prompts (neo4j sample_engine NoFault) ''a'' sample_world))) =
            Inr (SearchResponse rs))"
proof -
  have acc: "accepts sample_engine ''a''"
    by (simp add: sample_engine_def)
  have "\<not> fulltext_index (store sample_world)"
    by (simp add: sample_world_def sample_graph_def)
  with search_bootstraps_index
         [where eng = sample_engine and flt = NoFault and q = "''a''" and w = sample_world
            and be = "neo4j sample_engine NoFault"] acc
  show ?thesis by blast
qed

section \<open>Round trip and tag merging\<close>

text \<open>
  C1. On a store built by the service, and with an identifier that no stored prompt
  carries yet, a create call returns that identifier, and a get call with it returns a
  record with the same text and the same source, whose tags hold no duplicate and are, as
  a set, the strings of the input tag list.
\<close>

theorem create_then_get_round_trip:
  assumes "wf_graph (store w)" and "uuid \<notin> set (map p_id (prompt_nodes (store w)))"
  shows "fst (create_prompt (neo4j eng NoFault) uuid prompt w) = Inr (CreateResponse (Str uuid)) \<and>
     (\<exists>ts. fst (get_prompt (neo4j eng NoFault) uuid
                  (snd (create_prompt (neo4j eng NoFault) uuid prompt w))) =
             Inr (PromptResponse
               \<lparr>d_id = Str uuid, d_text = Str (pc_text prompt),
                d_source = (case pc_source prompt of None \<Rightarrow> Null | Some s \<Rightarrow> Str s),
                d_tags = StrList ts\<rparr>) \<and>
           distinct ts \<and> set ts = set (tags_or_empty (pc_tags prompt)))"
proof -
  let ?tags = "tags_or_empty (pc_tags prompt)"
  let ?w' = "snd (create_prompt (neo4j eng NoFault) uuid prompt w)"
  let ?ts = "collect_tag_names (next_ident (store w)) (store ?w')"
  have st: "store ?w' =
              create_prompt_writes uuid (pc_text prompt) (pc_source prompt) ?tags (store w)"
    by (rule create_prompt_store)
  have "fst (get_prompt (neo4j eng NoFault) uuid ?w') =
          Inr (PromptResponse
               \<lparr>d_id = Str uuid, d_text = Str (pc_text prompt),
                d_source = (case pc_source prompt of None \<Rightarrow> Null | Some s \<Rightarrow> Str s),
                d_tags = StrList ?ts\<rparr>)"
    using assms(2) st by (rule get_prompt_created)
  moreover have "distinct ?ts"
    unfolding st using assms(1) by (rule create_prompt_writes_wf(4))
  moreover have "set ?ts = set ?tags"
    unfolding st using create_prompt_writes_wf(3) [OF assms(1), of "next_ident (store w)"]
    by simp
  moreover have "fst (create_prompt (neo4j eng NoFault) uuid prompt w) =
                   Inr (CreateResponse (Str uuid))"
    by (simp add: create_prompt_ok)
  ultimately show ?thesis by blast
qed


theorem create_then_get_round_trip_witness:
  "fst (create_prompt (neo4j sample_engine NoFault) ''id-1''
          \<lparr>pc_text = ''Write a story about a robot'', pc_source = Some ''user'',
           pc_tags = Some [''story'', ''robot'', ''story'']\<rparr> empty_world) =
     Inr (CreateResponse (Str ''id-1'')) \<and>
   (\<exists>ts. fst (get_prompt (neo4j sample_engine NoFault) ''id-1''
                (snd (create_prompt (neo4j sample_engine NoFault) ''id-1''
                   \<lparr>pc_text = ''Write a story about a robot'', pc_source = Some ''user'',
                    pc_tags = Some [''story'', ''robot'', ''story'']\<rparr> empty_world))) =
           Inr (PromptResponse
             \<lparr>d_id = Str ''id-1'', d_text = Str ''Write a story about a robot'',
              d_source = Str ''user'', d_tags = StrList ts\<rparr>) \<and>
         distinct ts \<and> set ts = {''story'', ''robot''})"
proof -
  have w: "wf_graph (store empty_world)"
    by (simp add: empty_world_def wf_empty_graph)
  have f: "''id-1'' \<notin> set (map p_id (prompt_nodes (store empty_world)))"
    by (simp add: empty_world_def empty_graph_def)
  from create_then_get_round_trip
         [OF w f, where eng = sample_engine
            and prompt = "\<lparr>pc_text = ''Write a story about a robot'', pc_source = Some ''user'',
                            pc_tags = Some [''story'', ''robot'', ''story'']\<rparr>"]
  show ?thesis by (simp add: insert_commute)
qed

text \<open>
  C7. Tag names stay unique: after any sequence of create calls, failed ones included,
  from the empty store or from any store that satisfies the invariant, no two Tag nodes
  share a name. And for any two successful create calls whose tag lists share a name,
  with any create calls between them and after them, exactly one Tag node has that name
  in the end, and the Prompt node of each of the two calls has a HAS_TAG edge to it.
\<close>

theorem tag_merge_keeps_names_unique:
  "(wf_graph (store w) \<longrightarrow>
      wf_graph (store (create_all eng cs w)) \<and>
      distinct (map t_name (tag_nodes (store (create_all eng cs w))))) \<and>
   distinct (map t_name (tag_nodes (store (create_all eng cs empty_world)))) \<and>
   (wf_graph (store w) \<and> n \<in> set (tags_or_empty (pc_tags prompt_a)) \<and>
    n \<in> set (tags_or_empty (pc_tags prompt_b)) \<longrightarrow>
      (let wa = snd (create_prompt (neo4j eng NoFault) uuid_a prompt_a w);
           wm = create_all eng between wa;
           wb = snd (create_prompt (neo4j eng NoFault) uuid_b prompt_b wm);
           wz = create_all eng later wb
       in length (filter (\<lambda>t. t_name t = n) (tag_nodes (store wz))) = 1 \<and>
          (\<forall>t\<in>set (tag_nodes (store wz)). t_name t = n \<longrightarrow>
              (next_ident (store w), t_ident t) \<in> set (has_tag (store wz)) \<and>
              (next_ident (store wm), t_ident t) \<in> set (has_tag (store wz))) \<and>
          \<lparr>p_ident = next_ident (store w), p_id = uuid_a, p_text = pc_text prompt_a,
            p_source = pc_source prompt_a\<rparr> \<in> set (prompt_nodes (store wz)) \<and>
          \<lparr>p_ident = next_ident (store wm), p_id = uuid_b, p_text = pc_text prompt_b,
            p_source = pc_source prompt_b\<rparr> \<in> set (prompt_nodes (store wz))))"
proof -
  have inv: "wf_graph (store (create_all eng cs w')) \<and>
             distinct (map t_name (tag_nodes (store (create_all eng cs w'))))"
    if "wf_graph (store w')" for w'
    using wf_create_all [OF that, of eng cs] by (simp add: wf_tag_facts(6))
  have e: "wf_graph (store empty_world)"
    by (simp add: empty_world_def wf_empty_graph)
  let ?wa = "snd (create_prompt (neo4j eng NoFault) uuid_a prompt_a w)"
  let ?wm = "create_all eng between ?wa"
  let ?wb = "snd (create_prompt (neo4j eng NoFault) uuid_b prompt_b ?wm)"
  let ?wz = "create_all eng later ?wb"
  let ?ta = "tags_or_empty (pc_tags prompt_a)" and ?tb = "tags_or_empty (pc_tags prompt_b)"
  let ?na = "\<lparr>p_ident = next_ident (store w), p_id = uuid_a, p_text = pc_text prompt_a,
               p_source = pc_source prompt_a\<rparr>"
  let ?nb = "\<lparr>p_ident = next_ident (store ?wm), p_id = uuid_b, p_text = pc_text prompt_b,
               p_source = pc_source prompt_b\<rparr>"
  have pair: "length (filter (\<lambda>t. t_name t = n) (tag_nodes (store ?wz))) = 1 \<and>
          (\<forall>t\<in>set (tag_nodes (store ?wz)). t_name t = n \<longrightarrow>
              (next_ident (store w), t_ident t) \<in> set (has_tag (store ?wz)) \<and>
              (next_ident (store ?wm), t_ident t) \<in> set (has_tag (store ?wz))) \<and>
          ?na \<in> set (prompt_nodes (store ?wz)) \<and> ?nb \<in> set (prompt_nodes (store ?wz))"
    if wf: "wf_graph (store w)" and na: "n \<in> set ?ta" and nb: "n \<in> set ?tb"
  proof -
    have sa: "store ?wa =
                create_prompt_writes uuid_a (pc_text prompt_a) (pc_source prompt_a) ?ta (store w)"
      by (rule create_prompt_store)
    have sb: "store ?wb =
                create_prompt_writes uuid_b (pc_text prompt_b) (pc_source prompt_b) ?tb (store ?wm)"
      by (rule create_prompt_store)
    have wfz: "wf_graph (store ?wz)"
      by (intro wf_create_all wf_create_prompt wf)
    from create_writes_links [OF na]
    have a1: "n \<in> set (map t_name (tag_nodes (store ?wa)))"
      and a2: "\<forall>x\<in>set (tag_nodes (store ?wa)).
                 t_name x = n \<longrightarrow> (next_ident (store w), t_ident x) \<in> set (has_tag (store ?wa))"
      unfolding sa by blast+
    from create_all_keeps_links [OF a1 a2, of eng between]
    have m1: "n \<in> set (map t_name (tag_nodes (store ?wm)))"
      and m2: "\<forall>x\<in>set (tag_nodes (store ?wm)).
                 t_name x = n \<longrightarrow> (next_ident (store w), t_ident x) \<in> set (has_tag (store ?wm))"
      by blast+
    from create_prompt_keeps_links [OF m1 m2, of eng NoFault uuid_b prompt_b]
    have b0: "n \<in> set (map t_name (tag_nodes (store ?wb)))"
      and b1: "\<forall>x\<in>set (tag_nodes (store ?wb)).
                 t_name x = n \<longrightarrow> (next_ident (store w), t_ident x) \<in> set (has_tag (store ?wb))"
      by blast+
    from create_writes_links [OF nb]
    have b3: "\<forall>x\<in>set (tag_nodes (store ?wb)).
                 t_name x = n \<longrightarrow> (next_ident (store ?wm), t_ident x) \<in> set (has_tag (store ?wb))"
      unfolding sb by blast
    from create_all_keeps_links [OF b0 b1, of eng later]
    have z1: "n \<in> set (map t_name (tag_nodes (store ?wz)))"
      and z2: "\<forall>x\<in>set (tag_nodes (store ?wz)).
                 t_name x = n \<longrightarrow> (next_ident (store w), t_ident x) \<in> set (has_tag (store ?wz))"
      by blast+
    from create_all_keeps_links [OF b0 b3, of eng later]
    have z3: "\<forall>x\<in>set (tag_nodes (store ?wz)).
                 t_name x = n \<longrightarrow> (next_ident (store ?wm), t_ident x) \<in> set (has_tag (store ?wz))"
      by blast
    have one: "length (filter (\<lambda>t. t_name t = n) (tag_nodes (store ?wz))) = 1"
      using wf_tag_facts(6) [OF wfz] z1 by (rule unique_filter)
    have "?na \<in> set (prompt_nodes (store ?wa))"
      unfolding sa prompt_nodes_create_prompt_writes by simp
    then have "?na \<in> set (prompt_nodes (store ?wm))"
      using create_all_keeps_prompts by blast
    then have "?na \<in> set (prompt_nodes (store ?wb))"
      using create_prompt_keeps_prompts by blast
    then have pa: "?na \<in> set (prompt_nodes (store ?wz))"
      using create_all_keeps_prompts by blast
    have "?nb \<in> set (prompt_nodes (store ?wb))"
      unfolding sb prompt_nodes_create_prompt_writes by simp
    then have pb: "?nb \<in> set (prompt_nodes (store ?wz))"
      using create_all_keeps_prompts by blast
    from one z2 z3 pa pb show ?thesis by blast
  qed
  from inv [of w] inv [OF e] pair show ?thesis
    unfolding Let_def by blast
qed

theorem tag_merge_keeps_names_unique_witness:
  "(let wa = snd (create_prompt (neo4j sample_engine NoFault) ''id-1''
                    \<lparr>pc_text = ''a'', pc_source = Some ''user'',
                     pc_tags = Some [''story'', ''robot'']\<rparr> empty_world);
        wm = create_all sample_engine
               [(FailAfter 1, ''id-2'',
                 \<lparr>pc_text = ''b'', pc_source = None, pc_tags = Some [''robot'']\<rparr>)] wa;
        wb = snd (create_prompt (neo4j sample_engine NoFault) ''id-3''
                    \<lparr>pc_text = ''c'', pc_source = None,
                     pc_tags = Some [''robot'', ''poem'', ''robot'']\<rparr> wm);
        wz = create_all sample_engine [] wb
    in length (filter (\<lambda>t. t_name t = ''robot'') (tag_nodes (store wz))) = 1 \<and>
       (\<forall>t\<in>set (tag_nodes (store wz)). t_name t = ''robot'' \<longrightarrow>
           (next_ident (store empty_world), t_ident t) \<in> set (has_tag (store wz)) \<and>
           (next_ident (store wm), t_ident t) \<in> set (has_tag (store wz)))) \<and>
   distinct (map t_name (tag_nodes (store (create_all sample_engine
      [(NoFault, ''id-1'', \<lparr>pc_text = ''a'', pc_source = None, pc_tags = Some [''robot'']\<rparr>),
       (FailAfter 1, ''id-2'', \<lparr>pc_text = ''b'', pc_source = None, pc_tags = Some [''robot'']\<rparr>),
       (NoFault, ''id-3'', \<lparr>pc_text = ''c'', pc_source = None, pc_tags = Some [''robot'']\<rparr>)]
      empty_world))))"
proof -
  have h: "wf_graph (store empty_world) \<and>
           ''robot'' \<in> set (tags_or_empty (pc_tags
              \<lparr>pc_text = ''a'', pc_source = Some ''user'', pc_tags = Some [''story'', ''robot'']\<rparr>)) \<and>
           ''robot'' \<in> set (tags_or_empty (pc_tags
              \<lparr>pc_text = ''c'', pc_source = None,
               pc_tags = Some [''robot'', ''poem'', ''robot'']\<rparr>))"
    by (simp add: empty_world_def wf_empty_graph)
  from tag_merge_keeps_names_unique
         [where w = empty_world and eng = sample_engine and n = "''robot''"
            and uuid_a = "''id-1''" and uuid_b = "''id-3''"
            and prompt_a = "\<lparr>pc_text = ''a'', pc_source = Some ''user'',
                              pc_tags = Some [''story'', ''robot'']\<rparr>"
            and prompt_b = "\<lparr>pc_text = ''c'', pc_source = None,
                              pc_tags = Some [''robot'', ''poem'', ''robot'']\<rparr>"
            and between = "[(FailAfter 1, ''id-2'',
                 \<lparr>pc_text = ''b'', pc_source = None, pc_tags = Some [''robot'']\<rparr>)]"
            and later = "[]"
            and cs = "[(NoFault, ''id-1'', \<lparr>pc_text = ''a'', pc_source = None, pc_tags = Some [''robot'']\<rparr>),
       (FailAfter 1, ''id-2'', \<lparr>pc_text = ''b'', pc_source = None, pc_tags = Some [''robot'']\<rparr>),
       (NoFault, ''id-3'', \<lparr>pc_text = ''c'', pc_source = None, pc_tags = Some [''robot'']\<rparr>)]"] h
  show ?thesis unfolding Let_def by blast
qed

end
